theory Spec2Isabelle
  imports Main "HOL-Library.Sublist"
begin

section \<open>The documentation Makefile\<close>

text \<open>
  The Makefile of the documentation directory is embedded as data, rule by rule and in
  the order of the file, together with an interpreter for the part of GNU make the file
  uses: explicit rules, the \<open>.PHONY\<close> declaration, one match-anything pattern rule,
  prerequisites brought up to date before a recipe runs, every target updated at most
  once in an invocation, and a recipe that stops at the first command with a non-zero
  exit status unless its line carries the \<open>-\<close> prefix.

  A command is the list of its shell words. The values of \<open>SPHINXOPTS\<close>,
  \<open>SPHINXBUILD\<close> and \<open>O\<close>, which the recipes write outside quotes, are word lists
  (the text of the variable as the shell splits it). \<open>SOURCEDIR\<close> and \<open>BUILDDIR\<close>
  are texts: the recipes write them as \<open>"$(SOURCEDIR)"\<close> and \<open>"$(BUILDDIR)"\<close>, one
  word each whatever blanks they hold, except for line 15, \<open>rm -rf $(BUILDDIR)/*\<close>,
  where the text stands outside quotes and the shell splits it at blanks. The same holds
  of \<open>$@\<close> in line 34. Pathname expansion is left to the shell: a word ending in
  \<open>/*\<close> stays as it is written. The options of make that change how it runs
  (\<open>-i\<close>, \<open>-k\<close>, \<open>-n\<close>) are not part of the model.
\<close>

type_synonym command = "string list"

text \<open>
  The words of a text that a recipe writes outside quotes: the shell splits it at
  blanks, tabs and newlines, and a text of blanks only gives no word.
\<close>

definition blank :: "char \<Rightarrow> bool" where
  "blank c = (c = CHR '' '' \<or> c = CHR 0x09 \<or> c = CHR 0x0A)"

fun split_acc :: "string \<Rightarrow> string \<Rightarrow> string list" where
  "split_acc acc [] = (if acc = [] then [] else [acc])"
| "split_acc acc (c # cs) =
     (if blank c then (if acc = [] then [] else [acc]) @ split_acc [] cs
      else split_acc (acc @ [c]) cs)"

definition unquoted :: "string \<Rightarrow> string list" where
  "unquoted s = split_acc [] s"

text \<open>
  Splitting at blanks is all the model knows of the shell. The characters that neither
  make nor the shell reads in a way of their own are letters, digits, \<open>_\<close>, \<open>-\<close>
  and \<open>.\<close>, and \<open>/\<close> in a path; a text of such characters is \<open>plain\<close>. A quote,
  \<open>$\<close>, \<open>;\<close>, a parenthesis or another character the shell or make interprets
  makes a text one for which the recipes are not modelled; the statements about command
  lines are made for plain directory names and for goal names (below).
\<close>

definition name_char :: "char \<Rightarrow> bool" where
  "name_char c =
     (c \<in> set ''abcdefghijklmnopqrstuvwxyzABCDEFGHIJKLMNOPQRSTUVWXYZ0123456789_-.'')"

definition plain :: "string \<Rightarrow> bool" where
  "plain s = list_all (\<lambda>c. name_char c \<or> c = CHR ''/'') s"

record variables =
  SPHINXOPTS :: "string list"
  SPHINXBUILD :: "string list"
  SOURCEDIR :: string
  BUILDDIR :: string
  O_opts :: "string list"

text \<open>
  The values when nothing is set on the command line or in the environment
  (lines 3 to 6 of the Makefile; \<open>O\<close> is not assigned anywhere and expands to nothing).
\<close>

definition defaults :: variables where
  "defaults =
     \<lparr>SPHINXOPTS = [], SPHINXBUILD = [''sphinx-build''], SOURCEDIR = ''.'',
      BUILDDIR = ''_build'', O_opts = []\<rparr>"

text \<open>
  A recipe line: \<open>silent\<close> is the \<open>@\<close> prefix, \<open>ignore_errors\<close> the \<open>-\<close> prefix,
  \<open>argv\<close> the words of the command after make has expanded the variables.
\<close>

record line =
  silent :: bool
  ignore_errors :: bool
  argv :: command

text \<open>
  A rule: its target (or target pattern), its prerequisites, and its recipe as a function
  of the variables and of the automatic variable \<open>$@\<close>.
\<close>

record rule =
  target :: string
  prereqs :: "string list"
  recipe :: "variables \<Rightarrow> string \<Rightarrow> line list"

definition help_rule :: rule where
  "help_rule =
     \<lparr>target = ''help'', prereqs = [],
      recipe = (\<lambda>v at.
        [\<lparr>silent = True, ignore_errors = False,
          argv = SPHINXBUILD v @ [''-M'', ''help'', SOURCEDIR v, BUILDDIR v]
                 @ SPHINXOPTS v @ O_opts v\<rparr>])\<rparr>"

definition phony_rule :: rule where
  "phony_rule =
     \<lparr>target = ''.PHONY'',
      prereqs = [''help'', ''Makefile'', ''clean'', ''genapi'', ''htmlfast''],
      recipe = (\<lambda>v at. [])\<rparr>"

definition clean_rule :: rule where
  "clean_rule =
     \<lparr>target = ''clean'', prereqs = [],
      recipe = (\<lambda>v at.
        [\<lparr>silent = False, ignore_errors = False,
          argv = [''rm'', ''-rf''] @ unquoted (BUILDDIR v @ ''/*'')\<rparr>,
         \<lparr>silent = False, ignore_errors = False,
          argv = [''rm'', ''-rf'', ''_auto'']\<rparr>,
         \<lparr>silent = False, ignore_errors = False,
          argv = [''rm'', ''-rf'', ''api/generated'']\<rparr>,
         \<lparr>silent = True, ignore_errors = False,
          argv = SPHINXBUILD v @ [''-M'', ''clean'', SOURCEDIR v, BUILDDIR v]
                 @ SPHINXOPTS v @ O_opts v\<rparr>])\<rparr>"

definition genapi_rule :: rule where
  "genapi_rule =
     \<lparr>target = ''genapi'', prereqs = [],
      recipe = (\<lambda>v at.
        [\<lparr>silent = False, ignore_errors = False,
          argv = [''sphinx-apidoc'', ''-o'', ''_auto'', ''-d'', ''10'',
                  ''../src/qcodes_contrib_drivers'',
                  ''../src/qcodes_contrib_drivers/drivers/Spectrum/pyspcm.py'']\<rparr>,
         \<lparr>silent = False, ignore_errors = False,
          argv = [''mkdir'', ''-p'', ''api/generated/'']\<rparr>,
         \<lparr>silent = False, ignore_errors = False,
          argv = [''cp'', ''_auto/qcodes_contrib_drivers.drivers.*'',
                  ''api/generated/'']\<rparr>])\<rparr>"

definition htmlfast_rule :: rule where
  "htmlfast_rule =
     \<lparr>target = ''htmlfast'', prereqs = [''genapi''],
      recipe = (\<lambda>v at.
        [\<lparr>silent = True, ignore_errors = False,
          argv = SPHINXBUILD v @ [''-M'', ''html'', SOURCEDIR v, BUILDDIR v]
                 @ SPHINXOPTS v @ O_opts v @ [''-D'', ''nbsphinx_execute=never'']\<rparr>])\<rparr>"

definition catch_all :: rule where
  "catch_all =
     \<lparr>target = ''%'', prereqs = [''Makefile'', ''genapi''],
      recipe = (\<lambda>v at.
        [\<lparr>silent = True, ignore_errors = False,
          argv = SPHINXBUILD v @ [''-M''] @ unquoted at @ [SOURCEDIR v, BUILDDIR v]
                 @ SPHINXOPTS v @ O_opts v\<rparr>])\<rparr>"

definition makefile :: "rule list" where
  "makefile = [help_rule, phony_rule, clean_rule, genapi_rule, htmlfast_rule, catch_all]"

subsection \<open>The interpreter\<close>

text \<open>
  What an invocation of make has done so far: the targets brought up to date, every
  command executed (in order, each with the target whose recipe it belongs to), and the
  failure that stopped the run, if any.
\<close>

datatype failure =
    Recipe_failed string command nat
  | Not_a_goal string
  | Left_to_builtin string
  | No_rule string
  | Too_deep string

record mstate =
  updated :: "string list"
  executed :: "(string \<times> command) list"
  failed :: "failure option"

definition start :: mstate where
  "start = \<lparr>updated = [], executed = [], failed = None\<rparr>"

text \<open>
  The tools are outside the Makefile: the exit status of a command is given by a
  function of the commands executed before it and of the command itself.
\<close>

type_synonym shell = "(string \<times> command) list \<Rightarrow> command \<Rightarrow> nat"

definition all_succeed :: shell where
  "all_succeed h c = 0"

fun run_recipe :: "shell \<Rightarrow> string \<Rightarrow> line list \<Rightarrow> mstate \<Rightarrow> mstate" where
  "run_recipe sh t [] s = s"
| "run_recipe sh t (l # ls) s =
     (let status = sh (executed s) (argv l);
          s' = s\<lparr>executed := executed s @ [(t, argv l)]\<rparr>
      in if status \<noteq> 0 \<and> \<not> ignore_errors l
         then s'\<lparr>failed := Some (Recipe_failed t (argv l) status)\<rparr>
         else run_recipe sh t ls s')"

definition is_pattern :: "rule \<Rightarrow> bool" where
  "is_pattern r = (CHR ''%'' \<in> set (target r))"

definition special :: "string \<Rightarrow> bool" where
  "special t = (case t of [] \<Rightarrow> False | c # cs \<Rightarrow> c = CHR ''.'' \<and> CHR ''/'' \<notin> set cs)"

definition phony :: "rule list \<Rightarrow> string list" where
  "phony mf = concat (map prereqs (filter (\<lambda>r. target r = ''.PHONY'') mf))"

text \<open>
  The goal names of the model: a non-empty word of letters, digits, \<open>_\<close>, \<open>-\<close> and
  \<open>.\<close> that begins with neither \<open>-\<close> nor \<open>.\<close>. Such a word is a target name
  for make, and \<open>$@\<close> reaches the shell as that one word. The other words of a command
  line are outside the model: a word that begins with \<open>-\<close> is an option of make and
  one that holds \<open>=\<close> assigns a variable; a name that begins with a dot may be a
  special target or a suffix rule of make's own database, which make does build when it
  is given as a goal (\<open>make .PHONY\<close> brings the prerequisites of \<open>.PHONY\<close> up to
  date); a name with a blank, a parenthesis or a character the shell interprets is a
  goal for make but reaches the recipe of line 34 split, rewritten or not at all. For
  such a word the interpreter stops with \<open>Not_a_goal\<close> and runs nothing, which says
  that the model does not cover the word, not that make does nothing.
\<close>

definition goal_name :: "string \<Rightarrow> bool" where
  "goal_name t =
     (list_all name_char t
      \<and> (case t of [] \<Rightarrow> False | c # cs \<Rightarrow> c \<noteq> CHR ''-'' \<and> c \<noteq> CHR ''.''))"

text \<open>
  Rule selection for a goal name. An explicit rule wins. A phony target without a rule
  of its own has nothing to run, since implicit rules are not searched for phony targets
  (this is why the file lists \<open>Makefile\<close> in \<open>.PHONY\<close>). The parameter \<open>builtin\<close>
  stands for make's own rule database: it holds of the names that the target pattern of
  a built-in implicit rule matches (a file name with a known suffix, such as \<open>x.c\<close>);
  a match-anything rule that is not terminal is not considered for such a name, so the
  Makefile's rules do not decide what happens to it: make runs the commands of its own
  rule, or fails for want of a source file. The interpreter stops there with
  \<open>Left_to_builtin\<close> and runs nothing, which again says that the model does not
  cover the name. Every other goal name goes to the match-anything rule.
\<close>

definition select_rule :: "rule list \<Rightarrow> (string \<Rightarrow> bool) \<Rightarrow> string \<Rightarrow> failure + rule" where
  "select_rule mf builtin t =
     (if \<not> goal_name t then Inl (Not_a_goal t)
      else case find (\<lambda>r. target r = t \<and> \<not> is_pattern r) mf of
        Some r \<Rightarrow> Inr r
      | None \<Rightarrow>
          if t \<in> set (phony mf)
          then Inr \<lparr>target = t, prereqs = [], recipe = (\<lambda>v at. [])\<rparr>
          else if builtin t then Inl (Left_to_builtin t)
          else (case find (\<lambda>r. target r = ''%'') mf of
                  Some r \<Rightarrow> Inr r
                | None \<Rightarrow> Inl (No_rule t)))"

text \<open>
  Bringing a target up to date. Every target this Makefile can build is phony or depends
  on a phony target, so its recipe always runs; no file time stamp is consulted. The
  first argument bounds the depth of the prerequisite chain.
\<close>

fun update ::
  "nat \<Rightarrow> rule list \<Rightarrow> shell \<Rightarrow> (string \<Rightarrow> bool) \<Rightarrow> variables \<Rightarrow> string \<Rightarrow> mstate \<Rightarrow> mstate"
where
  "update 0 mf sh builtin v t s =
     (if failed s \<noteq> None \<or> t \<in> set (updated s) then s
      else s\<lparr>failed := Some (Too_deep t)\<rparr>)"
| "update (Suc n) mf sh builtin v t s =
     (if failed s \<noteq> None \<or> t \<in> set (updated s) then s
      else case select_rule mf builtin t of
             Inl e \<Rightarrow> s\<lparr>failed := Some e\<rparr>
           | Inr r \<Rightarrow>
               (let s1 = foldl (\<lambda>s' p. update n mf sh builtin v p s') s (prereqs r)
                in if failed s1 \<noteq> None then s1
                   else (let s2 = run_recipe sh t (recipe r v t) s1
                         in if failed s2 \<noteq> None then s2
                            else s2\<lparr>updated := updated s2 @ [t]\<rparr>)))"

text \<open>
  The default goal is the target of the first rule that is neither a pattern rule nor a
  special target.
\<close>

definition default_goal :: "rule list \<Rightarrow> string option" where
  "default_goal mf =
     map_option target (find (\<lambda>r. \<not> is_pattern r \<and> \<not> special (target r)) mf)"

definition goals_of :: "rule list \<Rightarrow> string list \<Rightarrow> string list" where
  "goals_of mf goals =
     (if goals = [] then (case default_goal mf of None \<Rightarrow> [] | Some g \<Rightarrow> [g]) else goals)"

text \<open>
  The command \<open>make\<close> with the given goals, run in the documentation directory.
\<close>

definition run_make :: "shell \<Rightarrow> (string \<Rightarrow> bool) \<Rightarrow> variables \<Rightarrow> string list \<Rightarrow> mstate" where
  "run_make sh builtin v goals =
     foldl (\<lambda>s g. update (length makefile) makefile sh builtin v g s) start
       (goals_of makefile goals)"

text \<open>
  An instance of the rule database, for statements at concrete goals: the names that
  end in one of the suffixes of GNU make's default suffix list. A bare suffix such as
  \<open>.c\<close> and a pair of suffixes such as \<open>.c.o\<close> are among them: they are the
  targets of the suffix rules of the database.
\<close>

definition SUFFIXES :: "string list" where
  "SUFFIXES =
     [''.out'', ''.a'', ''.ln'', ''.o'', ''.c'', ''.cc'', ''.C'', ''.cpp'', ''.p'', ''.f'',
      ''.F'', ''.m'', ''.r'', ''.y'', ''.l'', ''.ym'', ''.yl'', ''.s'', ''.S'', ''.mod'',
      ''.sym'', ''.def'', ''.h'', ''.info'', ''.dvi'', ''.tex'', ''.texinfo'', ''.texi'',
      ''.txinfo'', ''.w'', ''.ch'', ''.web'', ''.sh'', ''.elc'', ''.el'']"

definition known_suffix :: "string \<Rightarrow> bool" where
  "known_suffix t = list_ex (\<lambda>s. suffix s t) SUFFIXES"

text \<open>
  The commands of the \<open>genapi\<close> recipe as they appear in a run, and a call of
  \<open>$(SPHINXBUILD)\<close> in make mode for a builder name.
\<close>

definition genapi_run :: "(string \<times> command) list" where
  "genapi_run =
     [(''genapi'', [''sphinx-apidoc'', ''-o'', ''_auto'', ''-d'', ''10'',
                    ''../src/qcodes_contrib_drivers'',
                    ''../src/qcodes_contrib_drivers/drivers/Spectrum/pyspcm.py'']),
      (''genapi'', [''mkdir'', ''-p'', ''api/generated/'']),
      (''genapi'', [''cp'', ''_auto/qcodes_contrib_drivers.drivers.*'', ''api/generated/''])]"

definition sphinx_M :: "variables \<Rightarrow> string \<Rightarrow> command" where
  "sphinx_M v b =
     SPHINXBUILD v @ [''-M'', b, SOURCEDIR v, BUILDDIR v] @ SPHINXOPTS v @ O_opts v"

definition clean_run :: "variables \<Rightarrow> (string \<times> command) list" where
  "clean_run v =
     [(''clean'', [''rm'', ''-rf''] @ unquoted (BUILDDIR v @ ''/*'')),
      (''clean'', [''rm'', ''-rf'', ''_auto'']),
      (''clean'', [''rm'', ''-rf'', ''api/generated'']),
      (''clean'', sphinx_M v ''clean'')]"

text \<open>
  The two kinds of work the specification names: API documentation extraction (a command
  of the \<open>genapi\<close> recipe) and the Sphinx build (a call of \<open>$(SPHINXBUILD) -M\<close>).
\<close>

definition api_extraction :: "command \<Rightarrow> bool" where
  "api_extraction c = (c \<in> snd ` set genapi_run)"

definition sphinx_build :: "variables \<Rightarrow> command \<Rightarrow> bool" where
  "sphinx_build v c = prefix (SPHINXBUILD v @ [''-M'']) c"

text \<open>
  A run under some shell stays behind the run in which every command succeeds: it is the
  same state, or it has failed after a prefix of the commands.
\<close>

definition behind :: "mstate \<Rightarrow> mstate \<Rightarrow> bool" where
  "behind a b = (a = b \<or> (failed a \<noteq> None \<and> prefix (executed a) (executed b)))"


section \<open>The example notebooks\<close>

text \<open>
  A notebook is its list of cells and the \<open>nbsphinx.execute\<close> entry of its metadata.
  The code cells are translated statement by statement: the examples contain imports,
  assignments of constructor calls, and expression statements that call a parameter's
  \<open>get\<close> or \<open>set\<close>, read its \<open>label\<close> or \<open>unit\<close>, call a method of a handle, or print.
  A float literal keeps its text. A code cell keeps its execution count and its
  recorded outputs as they are stored in the file.
\<close>

datatype pyval =
    PyInt int
  | PyFloat string
  | PyBool bool
  | PyStr string
  | PyName string

datatype expr =
    Construct string "(string option \<times> pyval) list"
  | Param_get string string
  | Param_set string string pyval
  | Param_label string string
  | Param_unit string string
  | Method_call string string
  | Close_all
  | Print "expr list"

datatype stmt =
    Import_as string string
  | From_import string string
  | Assign string expr
  | Expr expr

datatype cell_output =
    Stream string
  | Execute_result string

datatype cell =
    Markdown "string list"
  | Code "nat option" "stmt list" "cell_output list"

record notebook =
  cells :: "cell list"
  nbsphinx_execute :: "string option"

definition degree_sign :: string where
  "degree_sign = [CHR 0xC2, CHR 0xB0]"

definition newline :: string where
  "newline = [CHR 0x0A]"

definition mff10x_notebook :: notebook where
  "mff10x_notebook =
     \<lparr>cells =
        [Markdown [''# Qcodes example with Thorlabs MFF10x''],
         Code (Some 1) [From_import ''qcodes_contrib_drivers.drivers.Thorlabs.APT'' ''Thorlabs_APT'',
               From_import ''qcodes_contrib_drivers.drivers.Thorlabs.MFF10x'' ''Thorlabs_MFF10x'']
              [],
         Markdown [''## Initialize the instrument'',
                   ''First, we need to initialize the APT server. Then we can initialize the MFF10x mirror flipper.''],
         Code (Some 2) [Assign ''apt'' (Construct ''Thorlabs_APT'' [])] [],
         Code (Some 3) [Assign ''thorlabs_mff10x''
                 (Construct ''Thorlabs_MFF10x''
                    [(None, PyStr ''Thorlabs_MFF10x''), (None, PyInt 0), (None, PyName ''apt'')])]
              [Stream (''Connected to: Thorlabs MFF002 (serial:37864181, firmware:SW Version 1.0.3) in 0.02s''
                       @ newline)],
         Markdown [''## Read the current position'',
                   ''We read the current position of the mirror flipper.''],
         Code (Some 4) [Expr (Param_get ''thorlabs_mff10x'' ''position'')] [Execute_result ''0''],
         Markdown [''## Change the position'',
                   ''We change the position of the flip mirror and repeat the position reading.''],
         Code (Some 5) [Expr (Param_set ''thorlabs_mff10x'' ''position'' (PyInt 1))] [],
         Code (Some 6) [Expr (Param_get ''thorlabs_mff10x'' ''position'')] [Execute_result ''1''],
         Markdown [''## Close instrument''],
         Code (Some 7) [Expr (Method_call ''thorlabs_mff10x'' ''close''),
               Expr (Method_call ''apt'' ''apt_clean_up'')]
              []],
      nbsphinx_execute = Some ''never''\<rparr>"

definition prm1z8_notebook :: notebook where
  "prm1z8_notebook =
     \<lparr>cells =
        [Markdown [''# Qcodes example with Thorlabs PRM1Z8''],
         Code (Some 1) [From_import ''qcodes_contrib_drivers.drivers.Thorlabs.APT'' ''Thorlabs_APT'',
               From_import ''qcodes_contrib_drivers.drivers.Thorlabs.PRM1Z8'' ''Thorlabs_PRM1Z8'']
              [],
         Markdown [''## Initialize the instrument'',
                   ''First, we need to initialize the APT server. Then we can initialize the PRM1Z8 polarizer wheel.''],
         Code (Some 2) [Assign ''apt'' (Construct ''Thorlabs_APT'' [])] [],
         Code (Some 3) [Assign ''thorlabs_prm1z8''
                 (Construct ''Thorlabs_PRM1Z8''
                    [(None, PyStr ''Thorlabs_PRM1Z8''), (None, PyInt 0), (None, PyName ''apt'')])]
              [Stream (''Connected to: Thorlabs TDC001 (serial:83857355, firmware:SW Version 2.0.8) in 1.21s''
                       @ newline)],
         Markdown [''## Read the current position'',
                   ''We read the current position of the polarizer wheel.''],
         Code (Some 4) [Expr (Print [Param_label ''thorlabs_prm1z8'' ''position'',
                            Param_get ''thorlabs_prm1z8'' ''position'',
                            Param_unit ''thorlabs_prm1z8'' ''position''])]
              [Stream (''position 90.00012969970703 '' @ degree_sign @ newline)],
         Markdown [''## Change the position'',
                   ''We change the position of the polarizer wheel and repeat the position reading.''],
         Code (Some 5) [Expr (Param_set ''thorlabs_prm1z8'' ''position'' (PyFloat ''200.0''))] [],
         Code (Some 6) [Expr (Print [Param_label ''thorlabs_prm1z8'' ''position'',
                            Param_get ''thorlabs_prm1z8'' ''position'',
                            Param_unit ''thorlabs_prm1z8'' ''position''])]
              [Stream (''position 200.00189208984375 '' @ degree_sign @ newline)],
         Markdown [''## Close instrument''],
         Code (Some 7) [Expr (Method_call ''thorlabs_prm1z8'' ''close''),
               Expr (Method_call ''apt'' ''apt_clean_up'')]
              []],
      nbsphinx_execute = Some ''never''\<rparr>"

definition kls1550_notebook :: notebook where
  \<open>kls1550_notebook =
     \<lparr>cells =
        [Markdown [''# QCoDeS example with Thorlabs KLS1550 laser source'',
                   ''(same .dll as for KLS101, KLSnnn)''],
         Markdown [''## Initialisation'',
                   ''Import all required libraries for driving the devices.''],
         Code (Some 1) [Import_as ''qcodes'' ''qc'',
               From_import ''qcodes_contrib_drivers.drivers.Thorlabs.Kinesis'' ''Thorlabs_Kinesis'',
               From_import ''qcodes_contrib_drivers.drivers.Thorlabs.KLS1550'' ''Thorlabs_KLS1550'']
              [],
         Markdown [''Create an instance of `Thorlabs_Kinesis` which is a wrapper for the device dll (passed as an argument to the object) that starts up the Kinesis server. The DLL needs be installed from https://www.thorlabs.com/software_pages/viewsoftwarepage.cfm?code=Motion_Control under "Kinesis software".''],
         Code None [Assign ''kinesis''
                 (Construct ''Thorlabs_Kinesis''
                    [(None, PyStr ''Thorlabs.MotionControl.KCube.LaserSource.dll''),
                     (Some ''sim'', PyBool False)]),
               Expr (Print [Method_call ''kinesis'' ''device_list''])]
              [],
         Markdown [''Create an instance of `Thorlabs_KLS1550` which is the device driver object, opening the device and starting polling (requesting device information) at 200 milisecods loops (must know the serial number shown on the device).''],
         Code None [Expr Close_all,
               Assign ''laser''
                 (Construct ''Thorlabs_KLS1550''
                    [(Some ''name'', PyStr ''laser''),
                     (Some ''serial_number'', PyStr ''...''),
                     (Some ''polling_speed'', PyInt 200),
                     (Some ''kinesis'', PyName ''kinesis'')])]
              [],
         Markdown [''## Turning the laser output on/off'',
                   ''Set the parameter `output_enabled` to True for "laser on" and False for "laser off". Note that the laser will only turn on if the safety switch is also on.''],
         Code None [Expr (Param_set ''laser'' ''output_enabled'' (PyBool True))] [],
         Code None [Expr (Param_set ''laser'' ''output_enabled'' (PyBool False))] [],
         Code None [Expr (Param_get ''laser'' ''output_enabled'')] [],
         Markdown [''## Setting the laser output power'',
                   ''Set the laser output power in Watts and get the current power value from the device (also in Watts)''],
         Code (Some 5) [Expr (Param_set ''laser'' ''power'' (PyFloat ''1e-3''))] [],
         Code None [Expr (Param_get ''laser'' ''power'')] [],
         Markdown [''## Disconnecting'',
                   ''Disconnect the device from the driver (but not the server, it still shows under `device_list`), stopping polling and closing the device (both for Kinesis server and qcodes).''],
         Code (Some 6) [Expr (Method_call ''laser'' ''close'')] []],
      nbsphinx_execute = Some ''never''\<rparr>\<close>

definition examples :: "notebook list" where
  "examples = [mff10x_notebook, prm1z8_notebook, kls1550_notebook]"

text \<open>
  The statements of a notebook in the order of its cells.
\<close>

fun source :: "cell \<Rightarrow> stmt list" where
  "source (Markdown ls) = []"
| "source (Code n ss outs) = ss"

definition program :: "notebook \<Rightarrow> stmt list" where
  "program nb = concat (map source (cells nb))"

subsection \<open>The connection lifecycle\<close>








subsection \<open>Values written and values recorded\<close>

text \<open>
  The type of a Python value as its \<open>repr\<close> shows it. \<open>True\<close> and \<open>False\<close> are
  the bools. An int is a digit string with an optional minus sign. A float is \<open>nan\<close>,
  or, after an optional minus sign, \<open>inf\<close>, digits with one point between them
  (\<open>200.0\<close>), or a mantissa of digits with at most one point between them followed by
  \<open>e\<close>, a sign and digits (\<open>1e-05\<close>, \<open>1.5e+16\<close>). Any other text is the
  \<open>repr\<close> of none of the three.
\<close>

datatype pytype = TInt | TFloat | TBool

definition digits :: "string \<Rightarrow> bool" where
  "digits s = (s \<noteq> [] \<and> list_all (\<lambda>c. c \<in> set ''0123456789'') s)"

definition text_before :: "char \<Rightarrow> string \<Rightarrow> string" where
  "text_before c s = takeWhile (\<lambda>x. x \<noteq> c) s"

definition text_after :: "char \<Rightarrow> string \<Rightarrow> string" where
  "text_after c s = drop (Suc (length (text_before c s))) s"

definition unsigned :: "string \<Rightarrow> string" where
  "unsigned s = (case s of [] \<Rightarrow> [] | c # cs \<Rightarrow> if c = CHR ''-'' then cs else s)"

definition decimal :: "string \<Rightarrow> bool" where
  "decimal s =
     (CHR ''.'' \<in> set s \<and> digits (text_before (CHR ''.'') s) \<and> digits (text_after (CHR ''.'') s))"

definition exponent :: "string \<Rightarrow> bool" where
  "exponent s =
     (case s of [] \<Rightarrow> False | c # ds \<Rightarrow> (c = CHR ''+'' \<or> c = CHR ''-'') \<and> digits ds)"

definition float_repr :: "string \<Rightarrow> bool" where
  "float_repr s =
     (s = ''nan'' \<or> unsigned s = ''inf'' \<or> decimal (unsigned s)
      \<or> (CHR ''e'' \<in> set s
          \<and> (digits (text_before (CHR ''e'') (unsigned s))
              \<or> decimal (text_before (CHR ''e'') (unsigned s)))
          \<and> exponent (text_after (CHR ''e'') (unsigned s))))"

definition repr_type :: "string \<Rightarrow> pytype option" where
  "repr_type s =
     (if s = ''True'' \<or> s = ''False'' then Some TBool
      else if digits (unsigned s) then Some TInt
      else if float_repr s then Some TFloat
      else None)"

fun literal_type :: "pyval \<Rightarrow> pytype option" where
  "literal_type (PyInt i) = Some TInt"
| "literal_type (PyFloat s) = Some TFloat"
| "literal_type (PyBool b) = Some TBool"
| "literal_type (PyStr s) = None"
| "literal_type (PyName s) = None"

text \<open>
  \<open>print\<close> writes its arguments separated by one blank and ends the line.
\<close>

fun words_acc :: "string \<Rightarrow> string \<Rightarrow> string list" where
  "words_acc acc [] = (if acc = [] then [] else [acc])"
| "words_acc acc (c # cs) =
     (if c = CHR '' '' \<or> c = CHR 0x0A
      then (if acc = [] then [] else [acc]) @ words_acc [] cs
      else words_acc (acc @ [c]) cs)"

definition words :: "string \<Rightarrow> string list" where
  "words s = words_acc [] s"

text \<open>
  The expressions whose value a cell shows, each with the recorded text: the arguments
  of a \<open>print\<close> with the words of the stream it wrote, or the cell's last expression
  with its \<open>execute_result\<close>.
\<close>

fun displayed :: "cell \<Rightarrow> (expr \<times> string) list" where
  "displayed (Code n [Expr (Print es)] [Stream txt]) = zip es (words txt)"
| "displayed (Code n [Expr e] [Execute_result txt]) = [(e, txt)]"
| "displayed c = []"

fun reading :: "expr \<times> string \<Rightarrow> (string \<times> string \<times> string) list" where
  "reading (Param_get x p, txt) = [(x, p, txt)]"
| "reading (e, txt) = []"

definition readings :: "notebook \<Rightarrow> (string \<times> string \<times> string) list" where
  "readings nb = concat (map reading (concat (map displayed (cells nb))))"

fun labels_units :: "expr \<times> string \<Rightarrow> (string \<times> string \<times> string) list" where
  "labels_units (Param_label x p, txt) = [(p, ''label'', txt)]"
| "labels_units (Param_unit x p, txt) = [(p, ''unit'', txt)]"
| "labels_units (e, txt) = []"

definition shown_attributes :: "notebook \<Rightarrow> (string \<times> string \<times> string) list" where
  "shown_attributes nb = concat (map labels_units (concat (map displayed (cells nb))))"

fun expr_writes :: "expr \<Rightarrow> (string \<times> string \<times> pyval) list" where
  "expr_writes (Param_set x p v) = [(x, p, v)]"
| "expr_writes (Print es) = concat (map expr_writes es)"
| "expr_writes e = []"

fun stmt_writes :: "stmt \<Rightarrow> (string \<times> string \<times> pyval) list" where
  "stmt_writes (Assign x e) = expr_writes e"
| "stmt_writes (Expr e) = expr_writes e"
| "stmt_writes s = []"

definition writes :: "notebook \<Rightarrow> (string \<times> string \<times> pyval) list" where
  "writes nb = concat (map stmt_writes (program nb))"

fun expr_reads :: "expr \<Rightarrow> (string \<times> string) list" where
  "expr_reads (Param_get x p) = [(x, p)]"
| "expr_reads (Print es) = concat (map expr_reads es)"
| "expr_reads e = []"

fun stmt_reads :: "stmt \<Rightarrow> (string \<times> string) list" where
  "stmt_reads (Assign x e) = expr_reads e"
| "stmt_reads (Expr e) = expr_reads e"
| "stmt_reads s = []"

definition reads :: "notebook \<Rightarrow> (string \<times> string) list" where
  "reads nb = concat (map stmt_reads (program nb))"

text \<open>
  The parameters a notebook exposes, each with the handle it is reached through, and the
  types of all the values the notebook shows for a parameter: those it passes to
  \<open>set\<close> and those it records as results of \<open>get\<close>.
\<close>

definition parameters :: "notebook \<Rightarrow> (string \<times> string) list" where
  "parameters nb = remdups (reads nb @ map (\<lambda>w. (fst w, fst (snd w))) (writes nb))"

definition value_types :: "notebook \<Rightarrow> string \<times> string \<Rightarrow> pytype option list" where
  "value_types nb xp =
     remdups
       (map (\<lambda>w. literal_type (snd (snd w)))
          (filter (\<lambda>w. (fst w, fst (snd w)) = xp) (writes nb))
        @ map (\<lambda>r. repr_type (snd (snd r)))
            (filter (\<lambda>r. (fst r, fst (snd r)) = xp) (readings nb)))"

text \<open>
  Whether a word stands in the text of a Markdown cell.
\<close>

definition mentions :: "string \<Rightarrow> cell \<Rightarrow> bool" where
  "mentions w c = (case c of Markdown ls \<Rightarrow> list_ex (\<lambda>l. w \<in> set (words l)) ls | Code n ss outs \<Rightarrow> False)"

subsection \<open>Running a notebook\<close>

text \<open>
  The cells hold straight-line code. Whether a statement raises is decided by the
  experiment-control framework and the vendor library behind the driver, given here as a
  function of the statements executed before it and of the statement: \<open>None\<close> when it
  returns, the exception otherwise. Execution stops at the first exception.
\<close>

type_synonym python = "stmt list \<Rightarrow> stmt \<Rightarrow> string option"

fun run_stmts :: "python \<Rightarrow> stmt list \<Rightarrow> stmt list \<Rightarrow> stmt list \<times> string option" where
  "run_stmts py done [] = (done, None)"
| "run_stmts py done (s # ss) =
     (case py done s of
        Some e \<Rightarrow> (done @ [s], Some e)
      | None \<Rightarrow> run_stmts py (done @ [s]) ss)"


subsection \<open>Notebook execution during the documentation build\<close>




section \<open>The driver parameters\<close>

text \<open>
  The driver classes (\<open>qcodes_contrib_drivers.drivers.Thorlabs\<close>) are not among the
  source files; the notebooks call them. The vendor library is a parameter: what a write
  does to the hardware state and what a read returns from it. A driver holds the handle
  of the connection, which is open between the construction of the driver and \<open>close\<close>.
\<close>

record 'h vendor =
  dll_write :: "string \<Rightarrow> pyval \<Rightarrow> 'h \<Rightarrow> 'h"
  dll_read :: "string \<Rightarrow> 'h \<Rightarrow> pyval"

record 'h driver =
  handle :: "'h option"

datatype driver_error = Closed_handle

text \<open>
  Modelled from the spec: the \<open>set\<close> accessor of a driver parameter, which is missing
  with the driver classes. The specification describes a parameter as a pass-through
  value to vendor hardware state: \<open>set\<close> forwards the value to a call of the vendor
  library and returns once that call returns.
\<close>

definition param_set :: "'h vendor \<Rightarrow> string \<Rightarrow> pyval \<Rightarrow> 'h driver \<Rightarrow> driver_error + 'h driver" where
  "param_set dll p x d =
     (case handle d of
        None \<Rightarrow> Inl Closed_handle
      | Some h \<Rightarrow> Inr (d\<lparr>handle := Some (dll_write dll p x h)\<rparr>))"

text \<open>
  Modelled from the spec: the \<open>get\<close> accessor of a driver parameter, which is missing
  with the driver classes: the value is read from the vendor hardware state through the
  open handle, and nothing is kept on the side of the driver.
\<close>

definition param_get :: "'h vendor \<Rightarrow> string \<Rightarrow> 'h driver \<Rightarrow> driver_error + pyval" where
  "param_get dll p d =
     (case handle d of
        None \<Rightarrow> Inl Closed_handle
      | Some h \<Rightarrow> Inr (dll_read dll p h))"

text \<open>
  Modelled from the spec: opening the connection (the construction of the driver) and
  closing it, the only resource lifecycle the specification names.
\<close>

definition driver_open :: "'h \<Rightarrow> 'h driver" where
  "driver_open h = \<lparr>handle = Some h\<rparr>"

definition driver_close :: "'h driver \<Rightarrow> 'h driver" where
  "driver_close d = d\<lparr>handle := None\<rparr>"

text \<open>
  Modelled from the spec: the declaration of a driver parameter, which is missing with
  the driver classes. The specification's data model is the named instrument parameter,
  typed and unit-bearing, with a get/set accessor and a unit/label string; it names
  \<open>position\<close>, a float in degrees, \<open>power\<close>, a float in Watts, and
  \<open>output_enabled\<close>, a bool, for which it names no unit.
\<close>

record parameter =
  pname :: string
  ptype :: pytype
  punit :: string

text \<open>
  Modelled from the spec: the parameters that the drivers declare, as the specification
  lists them in its data model. The unit/label string of \<open>output_enabled\<close> is
  empty, since none is named.
\<close>

definition declarations :: "parameter list" where
  "declarations =
     [\<lparr>pname = ''position'', ptype = TFloat, punit = ''degrees''\<rparr>,
      \<lparr>pname = ''power'', ptype = TFloat, punit = ''Watts''\<rparr>,
      \<lparr>pname = ''output_enabled'', ptype = TBool, punit = []\<rparr>]"

text \<open>
  Modelled from the spec: the declaration of the parameter of a given name. The
  specification types a parameter by its name alone.
\<close>

definition declared :: "string \<Rightarrow> parameter option" where
  "declared p = find (\<lambda>d. pname d = p) declarations"

text \<open>
  A parameter that a notebook exposes conforms to its declaration when the
  specification declares a parameter of that name and every value the notebook shows for
  it, written or recorded, has the declared type.
\<close>

definition conforms :: "notebook \<Rightarrow> string \<times> string \<Rightarrow> bool" where
  "conforms nb xp =
     (case declared (snd xp) of
        None \<Rightarrow> False
      | Some d \<Rightarrow> value_types nb xp = [Some (ptype d)])"

section \<open>Auxiliary notions for the proofs\<close>

text \<open>
  The goal names for which the Makefile has an explicit rule or a \<open>.PHONY\<close> entry.
\<close>

definition named :: "string list" where
  "named = [''help'', ''clean'', ''genapi'', ''htmlfast'', ''Makefile'']"



text \<open>
  Two environments for statements at concrete inputs: a shell in which \<open>sphinx-apidoc\<close> exits with
  status 2, and a Python in which constructing \<open>Thorlabs_Kinesis\<close> raises because the
  vendor library cannot be loaded.
\<close>

definition apidoc_fails :: shell where
  "apidoc_fails h c = (case c of [] \<Rightarrow> 0 | w # ws \<Rightarrow> if w = ''sphinx-apidoc'' then 2 else 0)"


text \<open>
  A vendor library whose hardware state is the value of the one parameter it holds,
  with the rotation stage as the PRM1Z8 notebook records it: the position written as
  \<open>200.0\<close> is held as \<open>200.00189208984375\<close>.
\<close>

definition recorded_stage :: "pyval vendor" where
  "recorded_stage =
     \<lparr>dll_write = (\<lambda>p x h. if x = PyFloat ''200.0'' then PyFloat ''200.00189208984375'' else x),
      dll_read = (\<lambda>p h. h)\<rparr>"

text \<open>
  The failures a run of this Makefile can end with: a command that failed, a word that
  is not a goal name of the model, or a goal left to make's built-in rules.
\<close>

fun expected :: "mstate \<Rightarrow> bool" where
  "expected s =
     (case failed s of
        None \<Rightarrow> True
      | Some (Recipe_failed t c n) \<Rightarrow> True
      | Some (Not_a_goal t) \<Rightarrow> True
      | Some (Left_to_builtin t) \<Rightarrow> True
      | Some (No_rule t) \<Rightarrow> False
      | Some (Too_deep t) \<Rightarrow> False)"

text \<open>
  The order of a run: a call of sphinx-build for a target other than \<open>help\<close> and
  \<open>clean\<close> has the commands of the \<open>genapi\<close> recipe somewhere before it. The
  invariant \<open>genapi_done\<close> adds that once \<open>genapi\<close> is up to date its commands have
  been executed.
\<close>

definition ordered :: "variables \<Rightarrow> (string \<times> command) list \<Rightarrow> bool" where
  "ordered v h =
     (\<forall>i u c. i < length h \<and> h ! i = (u, c) \<and> u \<noteq> ''help'' \<and> u \<noteq> ''clean'' \<and> sphinx_build v c
        \<longrightarrow> sublist genapi_run (take i h))"

definition genapi_done :: "variables \<Rightarrow> mstate \<Rightarrow> bool" where
  "genapi_done v s =
     (ordered v (executed s)
      \<and> (''genapi'' \<in> set (updated s) \<longrightarrow> sublist genapi_run (executed s)))"

section \<open>Words and names\<close>

lemma split_acc_no_blank:
  "list_all (\<lambda>c. \<not> blank c) s \<Longrightarrow> split_acc acc s = (if acc @ s = [] then [] else [acc @ s])"
  by (induction s arbitrary: acc) simp_all

lemma name_char_not_blank: "name_char c \<Longrightarrow> \<not> blank c"
  by (auto simp: name_char_def blank_def)

lemma plain_no_blank: "plain s \<Longrightarrow> list_all (\<lambda>c. \<not> blank c) s"
proof -
  assume "plain s"
  then have "\<forall>c\<in>set s. name_char c \<or> c = CHR ''/''"
    by (simp add: plain_def list_all_iff)
  moreover have "\<not> blank (CHR ''/'')"
    by (simp add: blank_def)
  ultimately have "\<forall>c\<in>set s. \<not> blank c"
    using name_char_not_blank by blast
  then show ?thesis
    by (simp add: list_all_iff)
qed

lemma unquoted_plain: "plain s \<Longrightarrow> unquoted (s @ ''/*'') = [s @ ''/*'']"
proof -
  assume "plain s"
  then have "list_all (\<lambda>c. \<not> blank c) s"
    by (rule plain_no_blank)
  moreover have "list_all (\<lambda>c. \<not> blank c) ''/*''"
    by (simp add: blank_def)
  ultimately have "list_all (\<lambda>c. \<not> blank c) (s @ ''/*'')"
    by simp
  then show ?thesis
    unfolding unquoted_def by (simp add: split_acc_no_blank)
qed

lemma goal_name_plain: "goal_name t \<Longrightarrow> list_all (\<lambda>c. \<not> blank c) t \<and> t \<noteq> []"
proof -
  assume g: "goal_name t"
  then have "\<forall>c\<in>set t. name_char c"
    by (simp add: goal_name_def list_all_iff)
  then have "\<forall>c\<in>set t. \<not> blank c"
    using name_char_not_blank by blast
  moreover from g have "t \<noteq> []"
    by (auto simp: goal_name_def)
  ultimately show ?thesis
    by (simp add: list_all_iff)
qed

lemma unquoted_goal_name: "goal_name t \<Longrightarrow> unquoted t = [t]"
  unfolding unquoted_def
  by (simp add: split_acc_no_blank goal_name_plain)

lemma goal_name_no_dot: "goal_name t \<Longrightarrow> t \<noteq> ''.PHONY''"
  by (auto simp: goal_name_def)

section \<open>Properties of the interpreter\<close>

lemma all_succeed_0: "all_succeed h c = 0"
  by (simp add: all_succeed_def)

lemma run_recipe_all_succeed:
  "run_recipe all_succeed t ls s = s\<lparr>executed := executed s @ map (\<lambda>l. (t, argv l)) ls\<rparr>"
  by (induction ls arbitrary: s) (simp_all add: all_succeed_0)

lemma run_recipe_updated: "updated (run_recipe sh t ls s) = updated s"
  by (induction ls arbitrary: s) (simp_all add: Let_def)

lemma run_recipe_mono: "prefix (executed s) (executed (run_recipe sh t ls s))"
proof (induction ls arbitrary: s)
  case Nil
  then show ?case by simp
next
  case (Cons l ls)
  have "prefix (executed s) (executed (s\<lparr>executed := executed s @ [(t, argv l)]\<rparr>))"
    by simp
  also have "prefix \<dots> (executed (run_recipe sh t ls (s\<lparr>executed := executed s @ [(t, argv l)]\<rparr>)))"
    by (rule Cons.IH)
  finally show ?case
    by (simp add: Let_def)
qed

lemma foldl_mono:
  assumes "\<And>p s. prefix (executed s) (executed (f s p))"
  shows "prefix (executed s) (executed (foldl f s ps))"
proof (induction ps arbitrary: s)
  case Nil
  then show ?case by simp
next
  case (Cons p ps)
  have "prefix (executed s) (executed (f s p))" by (rule assms)
  also have "prefix \<dots> (executed (foldl f (f s p) ps))" by (rule Cons.IH)
  finally show ?case by simp
qed

lemma update_mono: "prefix (executed s) (executed (update n mf sh bi v t s))"
proof (induction n arbitrary: t s)
  case 0
  then show ?case by simp
next
  case (Suc n)
  show ?case
  proof (cases "failed s \<noteq> None \<or> t \<in> set (updated s)")
    case True
    then show ?thesis by auto
  next
    case False
    show ?thesis
    proof (cases "select_rule mf bi t")
      case (Inl e)
      with False show ?thesis by simp
    next
      case (Inr r)
      define s1 where "s1 = foldl (\<lambda>s' p. update n mf sh bi v p s') s (prereqs r)"
      have a: "prefix (executed s) (executed s1)"
        unfolding s1_def by (rule foldl_mono) (rule Suc.IH)
      have b: "prefix (executed s1) (executed (run_recipe sh t (recipe r v t) s1))"
        by (rule run_recipe_mono)
      from a b have c: "prefix (executed s) (executed (run_recipe sh t (recipe r v t) s1))"
        by (rule prefix_order.trans)
      from False Inr a c show ?thesis
        by (simp add: Let_def s1_def [symmetric])
    qed
  qed
qed

lemma behind_refl: "behind s s"
  by (simp add: behind_def)

lemma behind_failed:
  "failed a \<noteq> None \<Longrightarrow> behind a b \<Longrightarrow> prefix (executed b) (executed c) \<Longrightarrow> behind a c"
  by (auto simp: behind_def intro: prefix_order.trans)

lemma behind_ok: "behind a b \<Longrightarrow> failed a = None \<Longrightarrow> a = b"
  by (simp add: behind_def)

lemma run_recipe_behind: "behind (run_recipe sh t ls s) (run_recipe all_succeed t ls s)"
proof (induction ls arbitrary: s)
  case Nil
  then show ?case by (simp add: behind_refl)
next
  case (Cons l ls)
  let ?s' = "s\<lparr>executed := executed s @ [(t, argv l)]\<rparr>"
  have R: "run_recipe all_succeed t (l # ls) s = run_recipe all_succeed t ls ?s'"
    by (simp add: Let_def all_succeed_0)
  show ?case
  proof (cases "sh (executed s) (argv l) \<noteq> 0 \<and> \<not> ignore_errors l")
    case True
    have "prefix (executed ?s') (executed (run_recipe all_succeed t ls ?s'))"
      by (rule run_recipe_mono)
    with True show ?thesis
      unfolding R by (simp add: behind_def Let_def)
  next
    case False
    with Cons.IH [of ?s'] show ?thesis
      unfolding R by (auto simp: Let_def)
  qed
qed

lemma foldl_behind:
  assumes step: "\<And>p a b. behind a b \<Longrightarrow> behind (f a p) (g b p)"
  shows "behind a b \<Longrightarrow> behind (foldl f a ps) (foldl g b ps)"
  by (induction ps arbitrary: a b) (simp_all add: step)

lemma update_failed: "failed s \<noteq> None \<Longrightarrow> update n mf sh bi v t s = s"
  by (cases n) auto

lemma update_behind:
  "behind a b \<Longrightarrow> behind (update n mf sh bi v t a) (update n mf all_succeed bi v t b)"
proof (induction n arbitrary: t a b)
  case 0
  then show ?case
    by (auto simp: behind_def)
next
  case (Suc n)
  show ?case
  proof (cases "a = b")
    case False
    with Suc.prems have fa: "failed a \<noteq> None"
      by (simp add: behind_def)
    have "prefix (executed b) (executed (update (Suc n) mf all_succeed bi v t b))"
      by (rule update_mono)
    with fa Suc.prems have "behind a (update (Suc n) mf all_succeed bi v t b)"
      by (rule behind_failed)
    then show ?thesis
      by (simp only: update_failed [OF fa])
  next
    case True
    show ?thesis
    proof (cases "failed b \<noteq> None \<or> t \<in> set (updated b)")
      case True
      with \<open>a = b\<close> show ?thesis by (auto simp: behind_refl)
    next
      case nb: False
      show ?thesis
      proof (cases "select_rule mf bi t")
        case (Inl e)
        with nb \<open>a = b\<close> show ?thesis by (simp add: behind_refl)
      next
        case (Inr r)
        define s1 where "s1 = foldl (\<lambda>s' p. update n mf sh bi v p s') b (prereqs r)"
        define s1' where "s1' = foldl (\<lambda>s' p. update n mf all_succeed bi v p s') b (prereqs r)"
        define s2 where "s2 = run_recipe sh t (recipe r v t) s1"
        define s2' where "s2' = run_recipe all_succeed t (recipe r v t) s1'"
        define fin where "fin = (\<lambda>s2::mstate. if failed s2 \<noteq> None then s2 else s2\<lparr>updated := updated s2 @ [t]\<rparr>)"
        have l: "update (Suc n) mf sh bi v t a = (if failed s1 \<noteq> None then s1 else fin s2)"
          using nb Inr \<open>a = b\<close> by (simp add: Let_def s1_def s2_def fin_def)
        have r: "update (Suc n) mf all_succeed bi v t b = (if failed s1' \<noteq> None then s1' else fin s2')"
          using nb Inr by (simp add: Let_def s1'_def s2'_def fin_def)
        have b1: "behind s1 s1'"
          unfolding s1_def s1'_def by (rule foldl_behind) (rule Suc.IH, assumption, rule behind_refl)
        have m: "prefix (executed s1') (executed (if failed s1' \<noteq> None then s1' else fin s2'))"
          using run_recipe_mono [of s1' all_succeed t "recipe r v t"]
          by (simp add: fin_def s2'_def)
        show ?thesis
        proof (cases "failed s1 = None")
          case False
          from False b1 m have "behind s1 (if failed s1' \<noteq> None then s1' else fin s2')"
            by (rule behind_failed)
          with False show ?thesis unfolding l r by simp
        next
          case True
          with b1 have e: "s1 = s1'" by (rule behind_ok)
          have b2: "behind s2 s2'"
            unfolding s2_def s2'_def e by (rule run_recipe_behind)
          show ?thesis
          proof (cases "failed s2 = None")
            case True
            with b2 have "s2 = s2'" by (rule behind_ok)
            with True e \<open>failed s1 = None\<close> show ?thesis unfolding l r by (simp add: behind_refl)
          next
            case False
            have "prefix (executed s2') (executed (fin s2'))"
              by (simp add: fin_def)
            with False b2 have "behind s2 (fin s2')"
              by (rule behind_failed)
            with False True e show ?thesis unfolding l r by (simp add: fin_def)
          qed
        qed
      qed
    qed
  qed
qed

lemma make_behind: "behind (run_make sh bi v goals) (run_make all_succeed bi v goals)"
  unfolding run_make_def by (rule foldl_behind) (rule update_behind, assumption, rule behind_refl)

lemma make_prefix: "prefix (executed (run_make sh bi v goals)) (executed (run_make all_succeed bi v goals))"
  using make_behind [of sh bi v goals] by (auto simp: behind_def)

lemma make_complete:
  "failed (run_make sh bi v goals) = None \<Longrightarrow> run_make sh bi v goals = run_make all_succeed bi v goals"
  using make_behind [of sh bi v goals] by (rule behind_ok)

section \<open>The runs of the Makefile\<close>

lemma fuel: "length makefile = Suc (Suc (Suc (Suc (Suc (Suc 0)))))"
  by (simp add: makefile_def)

lemmas rule_defs = help_rule_def phony_rule_def clean_rule_def genapi_rule_def htmlfast_rule_def catch_all_def

lemma phony_makefile: "phony makefile = [''help'', ''Makefile'', ''clean'', ''genapi'', ''htmlfast'']"
  by (simp add: phony_def makefile_def rule_defs)

lemma sel_help: "select_rule makefile bi ''help'' = Inr help_rule"
  by (simp add: select_rule_def goal_name_def name_char_def makefile_def help_rule_def is_pattern_def)

lemma sel_clean: "select_rule makefile bi ''clean'' = Inr clean_rule"
  by (simp add: select_rule_def goal_name_def name_char_def makefile_def rule_defs is_pattern_def)

lemma sel_genapi: "select_rule makefile bi ''genapi'' = Inr genapi_rule"
  by (simp add: select_rule_def goal_name_def name_char_def makefile_def rule_defs is_pattern_def)

lemma sel_htmlfast: "select_rule makefile bi ''htmlfast'' = Inr htmlfast_rule"
  by (simp add: select_rule_def goal_name_def name_char_def makefile_def rule_defs is_pattern_def)

lemma sel_Makefile:
  "select_rule makefile bi ''Makefile'' = Inr \<lparr>target = ''Makefile'', prereqs = [], recipe = (\<lambda>v at. [])\<rparr>"
  by (simp add: select_rule_def phony_makefile goal_name_def name_char_def)
     (simp add: makefile_def rule_defs is_pattern_def)

lemma sel_not_goal: "\<not> goal_name t \<Longrightarrow> select_rule mf bi t = Inl (Not_a_goal t)"
  by (simp add: select_rule_def)

lemma goal_name_named: "t \<in> set named \<Longrightarrow> goal_name t"
  by (auto simp: named_def goal_name_def name_char_def)

lemma sel_other:
  assumes "t \<notin> set named" and "goal_name t"
  shows "select_rule makefile bi t = (if bi t then Inl (Left_to_builtin t) else Inr catch_all)"
proof -
  from assms(1) have ne: "t \<noteq> ''help''" "t \<noteq> ''clean''" "t \<noteq> ''genapi''" "t \<noteq> ''htmlfast''"
    "t \<noteq> ''Makefile''"
    by (simp_all add: named_def)
  from assms(2) have np: "t \<noteq> ''.PHONY''"
    by (rule goal_name_no_dot)
  from ne np have f: "find (\<lambda>r. target r = t \<and> \<not> is_pattern r) makefile = None"
    by (auto simp: makefile_def rule_defs is_pattern_def)
  have c: "find (\<lambda>r. target r = ''%'') makefile = Some catch_all"
    by (simp add: makefile_def rule_defs)
  from ne have p: "t \<notin> set (phony makefile)"
    by (simp add: phony_makefile)
  from assms(2) f c p show ?thesis
    by (simp add: select_rule_def)
qed

lemmas sels = sel_help sel_clean sel_genapi sel_htmlfast sel_Makefile

lemma ok_help:
  "run_make all_succeed bi v [''help''] =
     \<lparr>updated = [''help''], executed = [(''help'', sphinx_M v ''help'')], failed = None\<rparr>"
  by (simp add: run_make_def goals_of_def fuel start_def sels run_recipe_all_succeed help_rule_def sphinx_M_def
        del: run_recipe.simps)

lemma ok_clean:
  "run_make all_succeed bi v [''clean''] =
     \<lparr>updated = [''clean''], executed = clean_run v, failed = None\<rparr>"
  by (simp add: run_make_def goals_of_def fuel start_def sels run_recipe_all_succeed clean_rule_def clean_run_def sphinx_M_def
        del: run_recipe.simps)

lemma ok_genapi:
  "run_make all_succeed bi v [''genapi''] =
     \<lparr>updated = [''genapi''], executed = genapi_run, failed = None\<rparr>"
  by (simp add: run_make_def goals_of_def fuel start_def sels run_recipe_all_succeed genapi_rule_def genapi_run_def
        del: run_recipe.simps)

lemma ok_htmlfast:
  "run_make all_succeed bi v [''htmlfast''] =
     \<lparr>updated = [''genapi'', ''htmlfast''],
      executed = genapi_run @ [(''htmlfast'', sphinx_M v ''html'' @ [''-D'', ''nbsphinx_execute=never''])],
      failed = None\<rparr>"
  by (simp add: run_make_def goals_of_def fuel start_def sels run_recipe_all_succeed genapi_rule_def htmlfast_rule_def genapi_run_def sphinx_M_def
        del: run_recipe.simps)

lemma ok_Makefile:
  "run_make sh bi v [''Makefile''] = \<lparr>updated = [''Makefile''], executed = [], failed = None\<rparr>"
  by (simp add: run_make_def goals_of_def fuel start_def sels)

lemma ok_not_goal:
  assumes "\<not> goal_name t"
  shows "run_make sh bi v [t] = \<lparr>updated = [], executed = [], failed = Some (Not_a_goal t)\<rparr>"
  using assms
  by (simp add: run_make_def goals_of_def fuel start_def sel_not_goal)

lemma ok_builtin:
  assumes "t \<notin> set named" and "goal_name t" and "bi t"
  shows "run_make sh bi v [t] = \<lparr>updated = [], executed = [], failed = Some (Left_to_builtin t)\<rparr>"
  using assms
  by (simp add: run_make_def goals_of_def fuel start_def sel_other)

lemma ok_other:
  assumes "t \<notin> set named" and "goal_name t" and "\<not> bi t"
  shows "run_make all_succeed bi v [t] =
     \<lparr>updated = [''Makefile'', ''genapi'', t],
      executed = genapi_run @ [(t, sphinx_M v t)],
      failed = None\<rparr>"
proof -
  from assms(1) have ne: "t \<noteq> ''Makefile''" "t \<noteq> ''genapi''"
    by (auto simp: named_def)
  with assms show ?thesis
    by (simp add: run_make_def goals_of_def fuel start_def sel_other sels run_recipe_all_succeed
          genapi_rule_def catch_all_def genapi_run_def sphinx_M_def unquoted_goal_name
        del: run_recipe.simps)
qed

lemma default_goal_help: "default_goal makefile = Some ''help''"
  by (simp add: default_goal_def makefile_def help_rule_def is_pattern_def special_def)

lemma help_any_shell:
  "executed (run_make sh bi v [''help'']) = [(''help'', sphinx_M v ''help'')]"
  by (simp add: run_make_def goals_of_def fuel start_def sels help_rule_def sphinx_M_def Let_def)

section \<open>Failing commands\<close>















lemma run_stmts_returns:
  "run_stmts py done ss = (done', None) \<Longrightarrow>
     done' = done @ ss \<and> (\<forall>j<length ss. py (done @ take j ss) (ss ! j) = None)"
proof (induction ss arbitrary: "done")
  case Nil
  then show ?case by simp
next
  case (Cons s ss)
  from Cons.prems have n: "py done s = None"
    by (cases "py done s") simp_all
  with Cons.prems have "run_stmts py (done @ [s]) ss = (done', None)"
    by simp
  from Cons.IH [OF this] have ih: "done' = (done @ [s]) @ ss"
    "\<forall>j<length ss. py ((done @ [s]) @ take j ss) (ss ! j) = None"
    by simp_all
  have "\<forall>j<length (s # ss). py (done @ take j (s # ss)) ((s # ss) ! j) = None"
  proof (intro allI impI)
    fix j
    assume "j < length (s # ss)"
    then show "py (done @ take j (s # ss)) ((s # ss) ! j) = None"
      using n ih(2) by (cases j) simp_all
  qed
  with ih(1) show ?case by simp
qed

section \<open>The commands of the recipes\<close>

lemma goal_cases:
  obtains (Help) "t = ''help''" | (Clean) "t = ''clean''" | (Genapi) "t = ''genapi''"
    | (Htmlfast) "t = ''htmlfast''" | (Makefile) "t = ''Makefile''" | (Not_goal) "\<not> goal_name t"
    | (Builtin) "t \<notin> set named" "goal_name t" "bi t"
    | (Other) "t \<notin> set named" "goal_name t" "\<not> bi t"
  by (auto simp: named_def)

lemma sphinx_build_M: "sphinx_build v (sphinx_M v b @ extra)"
  by (simp add: sphinx_build_def sphinx_M_def)

lemma sphinx_build_M0: "sphinx_build v (sphinx_M v b)"
  using sphinx_build_M [of v b "[]"] by simp

lemma sphinx_build_has_M: "sphinx_build v c \<Longrightarrow> ''-M'' \<in> set c"
proof -
  assume "sphinx_build v c"
  then have "set (SPHINXBUILD v @ [''-M'']) \<subseteq> set c"
    unfolding sphinx_build_def by (rule set_mono_prefix)
  then show ?thesis by simp
qed

lemma genapi_not_sphinx: "e \<in> set genapi_run \<Longrightarrow> \<not> sphinx_build v (snd e)"
  by (auto simp: genapi_run_def dest: sphinx_build_has_M)

lemma clean_any_shell_tags: "e \<in> set (executed (run_make sh bi v [''clean''])) \<Longrightarrow> fst e = ''clean''"
proof -
  assume "e \<in> set (executed (run_make sh bi v [''clean'']))"
  moreover have "set (executed (run_make sh bi v [''clean''])) \<subseteq> set (clean_run v)"
    using make_prefix [of sh bi v "[''clean'']"] by (simp add: ok_clean set_mono_prefix)
  ultimately show ?thesis by (auto simp: clean_run_def)
qed

lemma goal_name_html: "goal_name ''html''"
  by (simp add: goal_name_def name_char_def)

lemma goal_name_htmlfast: "goal_name ''htmlfast''"
  by (simp add: goal_name_def name_char_def)

lemma not_known_suffix_html: "\<not> known_suffix ''html''"
  by (simp add: known_suffix_def SUFFIXES_def suffix_to_prefix)

lemma not_known_suffix_htmlfast: "\<not> known_suffix ''htmlfast''"
  by (simp add: known_suffix_def SUFFIXES_def suffix_to_prefix)

lemma doc_work_only:
  assumes "t \<noteq> ''clean''"
    and "e \<in> set (executed (run_make sh bi v [t]))"
  shows "api_extraction (snd e) \<or> sphinx_build v (snd e)"
proof -
  have "set (executed (run_make sh bi v [t])) \<subseteq> set (executed (run_make all_succeed bi v [t]))"
    using make_prefix by (rule set_mono_prefix)
  with assms(2) have e: "e \<in> set (executed (run_make all_succeed bi v [t]))"
    by blast
  show ?thesis
  proof (cases rule: goal_cases [where t = t and bi = bi])
    case Help
    with e show ?thesis by (simp add: ok_help sphinx_build_M0)
  next
    case Clean
    with assms show ?thesis by simp
  next
    case Genapi
    with e show ?thesis by (simp add: ok_genapi api_extraction_def)
  next
    case Htmlfast
    with e show ?thesis by (auto simp: ok_htmlfast api_extraction_def sphinx_build_M)
  next
    case Makefile
    with e show ?thesis by (simp add: ok_Makefile)
  next
    case Not_goal
    with e show ?thesis by (simp add: ok_not_goal)
  next
    case Builtin
    with e show ?thesis by (simp add: ok_builtin)
  next
    case Other
    with e show ?thesis by (auto simp: ok_other api_extraction_def sphinx_build_M0)
  qed
qed

lemma plain_defaults: "plain (SOURCEDIR defaults)" "plain (BUILDDIR defaults)"
  by (simp_all add: defaults_def plain_def name_char_def)

lemma recipe_words:
  assumes "e \<in> set (executed (run_make sh bi v [t]))"
  shows "snd e \<in> snd ` set genapi_run
          \<or> snd e \<in> set [[''rm'', ''-rf''] @ unquoted (BUILDDIR v @ ''/*''),
                          [''rm'', ''-rf'', ''_auto''], [''rm'', ''-rf'', ''api/generated'']]
          \<or> (\<exists>b. snd e = sphinx_M v b)
          \<or> snd e = sphinx_M v ''html'' @ [''-D'', ''nbsphinx_execute=never'']"
proof -
  have "set (executed (run_make sh bi v [t])) \<subseteq> set (executed (run_make all_succeed bi v [t]))"
    using make_prefix by (rule set_mono_prefix)
  with assms have e: "e \<in> set (executed (run_make all_succeed bi v [t]))"
    by blast
  show ?thesis
  proof (cases rule: goal_cases [where t = t and bi = bi])
    case Help
    with e show ?thesis by (auto simp: ok_help)
  next
    case Clean
    with e show ?thesis by (auto simp: ok_clean clean_run_def)
  next
    case Genapi
    with e show ?thesis by (simp add: ok_genapi)
  next
    case Htmlfast
    with e show ?thesis by (auto simp: ok_htmlfast)
  next
    case Makefile
    with e show ?thesis by (simp add: ok_Makefile)
  next
    case Not_goal
    with e show ?thesis by (simp add: ok_not_goal)
  next
    case Builtin
    with e show ?thesis by (simp add: ok_builtin)
  next
    case Other
    with e show ?thesis by (auto simp: ok_other)
  qed
qed

section \<open>The definitions at particular inputs\<close>

text \<open>
  Outside quotes a blank splits the text: a target name with a blank reaches
  \<open>$(SPHINXBUILD)\<close> as two words, and a build directory with a blank gives
  \<open>rm -rf\<close> two operands, while the quoted \<open>"$(BUILDDIR)"\<close> stays one word. The
  words that are not goal names of the model, some names that make's suffix rules claim,
  and the \<open>repr\<close> typing at some texts.
\<close>

lemma unquoted_target_splits:
  "map argv (recipe catch_all defaults ''a b'')
     = [[''sphinx-build'', ''-M'', ''a'', ''b'', ''.'', ''_build'']]"
  by (simp add: catch_all_def defaults_def unquoted_def blank_def)

lemma unquoted_builddir_splits:
  "map argv (recipe clean_rule (defaults\<lparr>BUILDDIR := ''a b''\<rparr>) ''clean'')
     = [[''rm'', ''-rf'', ''a'', ''b/*''], [''rm'', ''-rf'', ''_auto''],
        [''rm'', ''-rf'', ''api/generated''],
        [''sphinx-build'', ''-M'', ''clean'', ''.'', ''a b'']]"
  by (simp add: clean_rule_def defaults_def unquoted_def blank_def)

lemma not_goal_names:
  "\<not> goal_name ''a b''" "\<not> goal_name ''html;true''" "\<not> goal_name ''lib(x)''"
  "\<not> goal_name ''.PHONY''" "\<not> goal_name ''.c''" "\<not> goal_name ''-n''"
  "\<not> goal_name ''O=-W''" "\<not> goal_name []"
  by (simp_all add: goal_name_def name_char_def)

lemma goal_names: "goal_name ''html''" "goal_name ''latexpdf''" "goal_name ''epub3''" "goal_name ''x.c''"
  by (simp_all add: goal_name_def name_char_def)

lemma known_suffixes: "known_suffix ''.c''" "known_suffix ''x.c''" "known_suffix ''.c.o''"
  "\<not> known_suffix ''conf.py''"
  by (simp_all add: known_suffix_def SUFFIXES_def suffix_to_prefix)

lemma repr_types:
  "repr_type ''inf'' = Some TFloat" "repr_type ''-inf'' = Some TFloat"
  "repr_type ''nan'' = Some TFloat" "repr_type ''1e-05'' = Some TFloat"
  "repr_type ''1.5e+16'' = Some TFloat" "repr_type ''-0.0'' = Some TFloat"
  "repr_type ''1.2.3'' = None" "repr_type ''1e5'' = None" "repr_type ''.'' = None"
  "repr_type ''-'' = None" "repr_type ''-12'' = Some TInt" "repr_type ''True'' = Some TBool"
  "repr_type ''e'' = None" "repr_type ''--1'' = None" "repr_type ''1.'' = None"
  by (simp_all add: repr_type_def digits_def unsigned_def float_repr_def decimal_def
        exponent_def text_before_def text_after_def)

section \<open>The genapi recipe comes first\<close>

lemma ordered_append_exempt:
  assumes "ordered v h"
    and "\<forall>e\<in>set es. fst e = ''help'' \<or> fst e = ''clean'' \<or> \<not> sphinx_build v (snd e)"
  shows "ordered v (h @ es)"
  unfolding ordered_def
proof (intro allI impI, elim conjE)
  fix i u c
  assume i: "i < length (h @ es)" "(h @ es) ! i = (u, c)" "u \<noteq> ''help''" "u \<noteq> ''clean''"
    "sphinx_build v c"
  show "sublist genapi_run (take i (h @ es))"
  proof (cases "i < length h")
    case True
    with i assms(1) have "sublist genapi_run (take i h)"
      by (simp add: ordered_def nth_append)
    with True show ?thesis by simp
  next
    case False
    with i(1,2) have "(u, c) \<in> set es"
      by (metis add_diff_inverse_nat length_append nat_add_left_cancel_less nth_append nth_mem)
    with assms(2) i show ?thesis by fastforce
  qed
qed

lemma ordered_append_after:
  assumes "ordered v h" and "sublist genapi_run h"
  shows "ordered v (h @ es)"
  unfolding ordered_def
proof (intro allI impI, elim conjE)
  fix i u c
  assume i: "i < length (h @ es)" "(h @ es) ! i = (u, c)" "u \<noteq> ''help''" "u \<noteq> ''clean''"
    "sphinx_build v c"
  show "sublist genapi_run (take i (h @ es))"
  proof (cases "i < length h")
    case True
    with i assms(1) have "sublist genapi_run (take i h)"
      by (simp add: ordered_def nth_append)
    with True show ?thesis by simp
  next
    case False
    then have "take i (h @ es) = h @ take (i - length h) es"
      by simp
    with assms(2) show ?thesis
      by (simp add: sublist_append)
  qed
qed

lemma run_recipe_appends:
  "\<exists>k. executed (run_recipe sh t ls s) = executed s @ take k (map (\<lambda>l. (t, argv l)) ls)"
proof (induction ls arbitrary: s)
  case Nil
  then show ?case by simp
next
  case (Cons l ls)
  show ?case
  proof (cases "sh (executed s) (argv l) \<noteq> 0 \<and> \<not> ignore_errors l")
    case True
    then have "executed (run_recipe sh t (l # ls) s)
        = executed s @ take (Suc 0) (map (\<lambda>l. (t, argv l)) (l # ls))"
      by (simp add: Let_def)
    then show ?thesis by blast
  next
    case False
    from Cons.IH [of "s\<lparr>executed := executed s @ [(t, argv l)]\<rparr>"] obtain k where
      "executed (run_recipe sh t ls (s\<lparr>executed := executed s @ [(t, argv l)]\<rparr>))
         = (executed s @ [(t, argv l)]) @ take k (map (\<lambda>l. (t, argv l)) ls)"
      by auto
    with False have "executed (run_recipe sh t (l # ls) s)
        = executed s @ take (Suc k) (map (\<lambda>l. (t, argv l)) (l # ls))"
      by (auto simp: Let_def)
    then show ?thesis by blast
  qed
qed

lemma run_recipe_complete:
  assumes "failed (run_recipe sh t ls s) = None"
  shows "executed (run_recipe sh t ls s) = executed s @ map (\<lambda>l. (t, argv l)) ls"
proof -
  have "behind (run_recipe sh t ls s) (run_recipe all_succeed t ls s)"
    by (rule run_recipe_behind)
  from this assms have "run_recipe sh t ls s = run_recipe all_succeed t ls s"
    by (rule behind_ok)
  then show ?thesis
    by (simp add: run_recipe_all_succeed)
qed

lemma update_marks:
  "failed (update (Suc n) mf sh bi v t s) = None \<Longrightarrow> t \<in> set (updated (update (Suc n) mf sh bi v t s))"
  by (auto simp: Let_def split: sum.splits if_splits)

lemma foldl_genapi_done:
  assumes "\<And>p s. p \<in> set ps \<Longrightarrow> genapi_done v s \<Longrightarrow> genapi_done v (f s p)"
  shows "genapi_done v s \<Longrightarrow> genapi_done v (foldl f s ps)"
  using assms by (induction ps arbitrary: s) simp_all

text \<open>A recipe none of whose commands needs genapi first, for a target other than genapi.\<close>

lemma update_step_exempt:
  assumes r: "select_rule mf bi t = Inr r"
    and pre: "\<And>p s. p \<in> set (prereqs r) \<Longrightarrow> genapi_done v s \<Longrightarrow> genapi_done v (update n mf sh bi v p s)"
    and ex: "\<forall>l\<in>set (recipe r v t). t = ''help'' \<or> t = ''clean'' \<or> \<not> sphinx_build v (argv l)"
    and t: "t \<noteq> ''genapi''"
    and s: "genapi_done v s"
  shows "genapi_done v (update (Suc n) mf sh bi v t s)"
proof (cases "failed s \<noteq> None \<or> t \<in> set (updated s)")
  case True
  with s show ?thesis by auto
next
  case False
  define s1 where "s1 = foldl (\<lambda>s' p. update n mf sh bi v p s') s (prereqs r)"
  define s2 where "s2 = run_recipe sh t (recipe r v t) s1"
  have d1: "genapi_done v s1"
    unfolding s1_def using s by (rule foldl_genapi_done [rotated]) (rule pre)
  obtain k where k: "executed s2 = executed s1 @ take k (map (\<lambda>l. (t, argv l)) (recipe r v t))"
    unfolding s2_def using run_recipe_appends by blast
  have "\<forall>e\<in>set (take k (map (\<lambda>l. (t, argv l)) (recipe r v t))).
          fst e = ''help'' \<or> fst e = ''clean'' \<or> \<not> sphinx_build v (snd e)"
    using ex by (auto dest!: in_set_takeD)
  with d1 have o2: "ordered v (executed s2)"
    unfolding k genapi_done_def by (intro ordered_append_exempt) simp_all
  have u2: "updated s2 = updated s1"
    by (simp add: s2_def run_recipe_updated)
  from d1 have "''genapi'' \<in> set (updated s1) \<longrightarrow> sublist genapi_run (executed s2)"
    unfolding k genapi_done_def by (auto simp: sublist_append)
  with o2 u2 t have d2: "genapi_done v s2" "genapi_done v (s2\<lparr>updated := updated s2 @ [t]\<rparr>)"
    by (simp_all add: genapi_done_def)
  from False r d1 d2 show ?thesis
    by (simp add: Let_def s1_def [symmetric] s2_def [symmetric])
qed

text \<open>The recipe of genapi itself.\<close>

lemma update_step_genapi:
  assumes s: "genapi_done v s"
  shows "genapi_done v (update (Suc n) makefile sh bi v ''genapi'' s)"
proof (cases "failed s \<noteq> None \<or> ''genapi'' \<in> set (updated s)")
  case True
  with s show ?thesis by auto
next
  case False
  define s2 where "s2 = run_recipe sh ''genapi'' (recipe genapi_rule v ''genapi'') s"
  have tr: "map (\<lambda>l. (''genapi'', argv l)) (recipe genapi_rule v ''genapi'') = genapi_run"
    by (simp add: genapi_rule_def genapi_run_def)
  obtain k where k: "executed s2 = executed s @ take k genapi_run"
    unfolding s2_def using run_recipe_appends [of sh "''genapi''" "recipe genapi_rule v ''genapi''" s]
    by (auto simp: tr)
  have "\<forall>e\<in>set (take k genapi_run). fst e = ''help'' \<or> fst e = ''clean'' \<or> \<not> sphinx_build v (snd e)"
    using genapi_not_sphinx [of _ v] by (fastforce dest!: in_set_takeD)
  with s have o2: "ordered v (executed s2)"
    unfolding k genapi_done_def by (intro ordered_append_exempt) simp_all
  have u2: "updated s2 = updated s"
    by (simp add: s2_def run_recipe_updated)
  from False o2 u2 have d2: "genapi_done v s2"
    by (simp add: genapi_done_def)
  have d3: "failed s2 = None \<Longrightarrow> genapi_done v (s2\<lparr>updated := updated s2 @ [''genapi'']\<rparr>)"
  proof -
    assume "failed s2 = None"
    then have "executed s2 = executed s @ genapi_run"
      unfolding s2_def using run_recipe_complete [of sh "''genapi''" "recipe genapi_rule v ''genapi''" s]
      by (simp add: tr)
    then have "sublist genapi_run (executed s2)"
      by (simp add: sublist_append)
    with o2 show ?thesis
      by (simp add: genapi_done_def)
  qed
  from False d2 d3 show ?thesis
    by (simp add: sel_genapi Let_def s2_def [symmetric] genapi_rule_def [THEN arg_cong, of prereqs])
qed


text \<open>A recipe that runs after genapi, the last prerequisite of its rule.\<close>

lemma update_step_after:
  assumes r: "select_rule mf bi t = Inr r"
    and ps: "prereqs r = ps @ [''genapi'']"
    and pre: "\<And>p s. p \<in> set (prereqs r) \<Longrightarrow> genapi_done v s
                \<Longrightarrow> genapi_done v (update (Suc n) mf sh bi v p s)"
    and t: "t \<noteq> ''genapi''"
    and s: "genapi_done v s"
  shows "genapi_done v (update (Suc (Suc n)) mf sh bi v t s)"
proof (cases "failed s \<noteq> None \<or> t \<in> set (updated s)")
  case True
  with s show ?thesis by auto
next
  case False
  define s0 where "s0 = foldl (\<lambda>s' p. update (Suc n) mf sh bi v p s') s ps"
  define s1 where "s1 = foldl (\<lambda>s' p. update (Suc n) mf sh bi v p s') s (prereqs r)"
  define s2 where "s2 = run_recipe sh t (recipe r v t) s1"
  have s10: "s1 = update (Suc n) mf sh bi v ''genapi'' s0"
    by (simp add: s1_def s0_def ps)
  have d1: "genapi_done v s1"
    unfolding s1_def using s by (rule foldl_genapi_done [rotated]) (rule pre)
  have d2: "failed s1 = None \<Longrightarrow>
      genapi_done v s2 \<and> genapi_done v (s2\<lparr>updated := updated s2 @ [t]\<rparr>)"
  proof -
    assume "failed s1 = None"
    then have "''genapi'' \<in> set (updated s1)"
      unfolding s10 by (rule update_marks)
    with d1 have sub: "sublist genapi_run (executed s1)" and o1: "ordered v (executed s1)"
      by (simp_all add: genapi_done_def)
    obtain k where k: "executed s2 = executed s1 @ take k (map (\<lambda>l. (t, argv l)) (recipe r v t))"
      unfolding s2_def using run_recipe_appends by blast
    from o1 sub have o2: "ordered v (executed s2)"
      unfolding k by (rule ordered_append_after)
    from sub have sub2: "sublist genapi_run (executed s2)"
      unfolding k by (simp add: sublist_append)
    from o2 sub2 show ?thesis
      by (simp add: genapi_done_def)
  qed
  have u: "update (Suc (Suc n)) mf sh bi v t s =
      (if failed s1 \<noteq> None then s1
       else if failed s2 \<noteq> None then s2 else s2\<lparr>updated := updated s2 @ [t]\<rparr>)"
    using False r
    by (subst update.simps(2)) (simp add: Let_def s1_def s2_def del: update.simps)
  from d1 d2 show ?thesis
    unfolding u by simp
qed

lemma genapi_done_failed: "genapi_done v (s\<lparr>failed := f\<rparr>) = genapi_done v s"
  by (simp add: genapi_done_def)

lemma update_genapi_done_1:
  assumes "t \<in> set [''help'', ''clean'', ''genapi'', ''Makefile'']
      \<or> \<not> goal_name t \<or> t \<notin> set named \<and> goal_name t \<and> bi t"
    and s: "genapi_done v s"
  shows "genapi_done v (update (Suc n) makefile sh bi v t s)"
proof -
  from assms(1) consider "t = ''help''" | "t = ''clean''" | "t = ''genapi''" | "t = ''Makefile''"
    | "t \<notin> set named" "goal_name t" "bi t" | "\<not> goal_name t"
    by auto
  then show ?thesis
  proof cases
    case 1
    show ?thesis unfolding 1
      by (rule update_step_exempt [OF sel_help _ _ _ s]) (simp_all add: help_rule_def)
  next
    case 2
    show ?thesis unfolding 2
      by (rule update_step_exempt [OF sel_clean _ _ _ s]) (simp_all add: clean_rule_def)
  next
    case 3
    show ?thesis unfolding 3 using s by (rule update_step_genapi)
  next
    case 4
    show ?thesis unfolding 4
      by (rule update_step_exempt [OF sel_Makefile _ _ _ s]) simp_all
  next
    case 5
    with s show ?thesis
      by (simp add: sel_other genapi_done_failed)
  next
    case 6
    with s show ?thesis
      by (simp add: sel_not_goal genapi_done_failed)
  qed
qed

lemma update_genapi_done_2:
  assumes s: "genapi_done v s"
  shows "genapi_done v (update (Suc (Suc n)) makefile sh bi v t s)"
proof (cases rule: goal_cases [where t = t and bi = bi])
  case Help
  with s show ?thesis by (intro update_genapi_done_1) simp_all
next
  case Clean
  with s show ?thesis by (intro update_genapi_done_1) simp_all
next
  case Genapi
  with s show ?thesis by (intro update_genapi_done_1) simp_all
next
  case Htmlfast
  show ?thesis unfolding Htmlfast
  proof (rule update_step_after [OF sel_htmlfast _ _ _ s])
    show "prereqs htmlfast_rule = [] @ [''genapi'']"
      by (simp add: htmlfast_rule_def)
  next
    fix p s
    assume "p \<in> set (prereqs htmlfast_rule)" and "genapi_done v s"
    then show "genapi_done v (update (Suc n) makefile sh bi v p s)"
      by (intro update_genapi_done_1) (simp_all add: htmlfast_rule_def)
  qed simp
next
  case Makefile
  with s show ?thesis by (intro update_genapi_done_1) simp_all
next
  case Not_goal
  with s show ?thesis by (intro update_genapi_done_1) simp_all
next
  case Builtin
  with s show ?thesis by (intro update_genapi_done_1) simp_all
next
  case Other
  then have r: "select_rule makefile bi t = Inr catch_all"
    by (simp add: sel_other)
  from Other have t: "t \<noteq> ''genapi''"
    by (auto simp: named_def)
  show ?thesis
  proof (rule update_step_after [OF r _ _ t s])
    show "prereqs catch_all = [''Makefile''] @ [''genapi'']"
      by (simp add: catch_all_def)
  next
    fix p s
    assume "p \<in> set (prereqs catch_all)" and "genapi_done v s"
    then show "genapi_done v (update (Suc n) makefile sh bi v p s)"
      by (intro update_genapi_done_1) (auto simp: catch_all_def)
  qed
qed

lemma run_make_genapi_done: "genapi_done v (run_make sh bi v goals)"
  unfolding run_make_def fuel
proof (rule foldl_genapi_done)
  show "genapi_done v start"
    by (simp add: genapi_done_def ordered_def start_def)
next
  fix p s
  assume "genapi_done v s"
  then show "genapi_done v (update (Suc (Suc (Suc (Suc (Suc (Suc 0)))))) makefile sh bi v p s)"
    by (rule update_genapi_done_2)
qed

lemma run_make_ordered:
  assumes "i < length (executed (run_make sh bi v goals))"
    and "executed (run_make sh bi v goals) ! i = (u, c)"
    and "u \<noteq> ''help''" and "u \<noteq> ''clean''" and "sphinx_build v c"
  shows "sublist genapi_run (take i (executed (run_make sh bi v goals)))"
  using run_make_genapi_done [of v sh bi goals] assms
  unfolding genapi_done_def ordered_def by blast

section \<open>The depth bound is never reached\<close>

lemma run_recipe_expected: "expected s \<Longrightarrow> expected (run_recipe sh t ls s)"
  by (induction ls arbitrary: s) (simp_all add: Let_def)

lemma foldl_expected:
  assumes "\<And>p s. p \<in> set ps \<Longrightarrow> expected s \<Longrightarrow> expected (f s p)"
  shows "expected s \<Longrightarrow> expected (foldl f s ps)"
  using assms by (induction ps arbitrary: s) simp_all

lemma update_expected_step:
  assumes r: "select_rule mf bi t = Inr r"
    and pre: "\<And>p s. p \<in> set (prereqs r) \<Longrightarrow> expected s \<Longrightarrow> expected (update n mf sh bi v p s)"
    and s: "expected s"
  shows "expected (update (Suc n) mf sh bi v t s)"
proof (cases "failed s \<noteq> None \<or> t \<in> set (updated s)")
  case True
  with s show ?thesis by auto
next
  case False
  define s1 where "s1 = foldl (\<lambda>s' p. update n mf sh bi v p s') s (prereqs r)"
  have e1: "expected s1"
    unfolding s1_def using s by (rule foldl_expected [rotated]) (rule pre)
  then have e2: "expected (run_recipe sh t (recipe r v t) s1)"
    by (rule run_recipe_expected)
  from False r e1 e2 show ?thesis
    by (simp add: Let_def s1_def [symmetric] del: expected.simps)
       (simp split: option.splits failure.splits)
qed

lemma update_expected_1:
  assumes "t \<in> set [''help'', ''clean'', ''genapi'', ''Makefile'']
      \<or> \<not> goal_name t \<or> t \<notin> set named \<and> goal_name t \<and> bi t"
    and "expected s"
  shows "expected (update (Suc n) makefile sh bi v t s)"
proof -
  from assms(1) consider "t = ''help''" | "t = ''clean''" | "t = ''genapi''" | "t = ''Makefile''"
    | "t \<notin> set named" "goal_name t" "bi t" | "\<not> goal_name t"
    by auto
  then show ?thesis
  proof cases
    case 1
    show ?thesis unfolding 1
      by (rule update_expected_step [OF sel_help _ assms(2)]) (simp add: help_rule_def)
  next
    case 2
    show ?thesis unfolding 2
      by (rule update_expected_step [OF sel_clean _ assms(2)]) (simp add: clean_rule_def)
  next
    case 3
    show ?thesis unfolding 3
      by (rule update_expected_step [OF sel_genapi _ assms(2)]) (simp add: genapi_rule_def)
  next
    case 4
    show ?thesis unfolding 4
      by (rule update_expected_step [OF sel_Makefile _ assms(2)]) simp
  next
    case 5
    with assms(2) show ?thesis
      by (simp add: sel_other)
  next
    case 6
    with assms(2) show ?thesis
      by (simp add: sel_not_goal)
  qed
qed

lemma update_expected_2:
  assumes "expected s"
  shows "expected (update (Suc (Suc n)) makefile sh bi v t s)"
proof (cases rule: goal_cases [where t = t and bi = bi])
  case Help
  with assms show ?thesis by (intro update_expected_1) simp_all
next
  case Clean
  with assms show ?thesis by (intro update_expected_1) simp_all
next
  case Genapi
  with assms show ?thesis by (intro update_expected_1) simp_all
next
  case Htmlfast
  show ?thesis unfolding Htmlfast
  proof (rule update_expected_step [OF sel_htmlfast _ assms])
    fix p s
    assume "p \<in> set (prereqs htmlfast_rule)" and "expected s"
    then show "expected (update (Suc n) makefile sh bi v p s)"
      by (intro update_expected_1) (simp_all add: htmlfast_rule_def)
  qed
next
  case Makefile
  with assms show ?thesis by (intro update_expected_1) simp_all
next
  case Not_goal
  with assms show ?thesis by (intro update_expected_1) simp_all
next
  case Builtin
  with assms show ?thesis by (intro update_expected_1) simp_all
next
  case Other
  then have r: "select_rule makefile bi t = Inr catch_all"
    by (simp add: sel_other)
  show ?thesis
  proof (rule update_expected_step [OF r _ assms])
    fix p s
    assume "p \<in> set (prereqs catch_all)" and "expected s"
    then show "expected (update (Suc n) makefile sh bi v p s)"
      by (intro update_expected_1) (auto simp: catch_all_def)
  qed
qed

lemma run_make_expected: "expected (run_make sh bi v goals)"
  unfolding run_make_def fuel
proof (rule foldl_expected)
  show "expected start" by (simp add: start_def)
next
  fix p s
  assume "expected s"
  then show "expected (update (Suc (Suc (Suc (Suc (Suc (Suc 0)))))) makefile sh bi v p s)"
    by (rule update_expected_2)
qed

lemma fuel_suffices:
  "failed (run_make sh bi v goals) \<noteq> Some (Too_deep t)
   \<and> failed (run_make sh bi v goals) \<noteq> Some (No_rule t)"
  using run_make_expected [of sh bi v goals] by (auto split: option.splits failure.splits)

section \<open>Two failing runs\<close>



section \<open>The lifecycle check\<close>







section \<open>The claims\<close>

text \<open>
  Claim C1 as it is stated. The boundary named there is \<open>make html\<close>, \<open>make clean\<close>
  and \<open>make genapi\<close>, every other target name being passed through to sphinx-build
  unchanged. The Makefile also has the rule \<open>htmlfast\<close>: the name is none of the three,
  and it does not reach sphinx-build as it is, since the recipe asks for the builder
  \<open>html\<close> and appends \<open>-D nbsphinx_execute=never\<close>.
\<close>

theorem htmlfast_is_not_passed_through:
  "''htmlfast'' \<notin> set [''html'', ''clean'', ''genapi'']
   \<and> executed (run_make all_succeed known_suffix defaults [''htmlfast'']) =
       genapi_run @ [(''htmlfast'', [''sphinx-build'', ''-M'', ''html'', ''.'', ''_build'',
                                    ''-D'', ''nbsphinx_execute=never''])]
   \<and> (''htmlfast'', [''sphinx-build'', ''-M'', ''htmlfast'', ''.'', ''_build''])
       \<notin> set (executed (run_make all_succeed known_suffix defaults [''htmlfast'']))"
  by (simp add: ok_htmlfast sphinx_M_def defaults_def genapi_run_def)

text \<open>
  Claim C1, amended. The targets with a rule of their own are \<open>help\<close>, \<open>clean\<close>,
  \<open>genapi\<close> and \<open>htmlfast\<close>, with the command lines below; \<open>make Makefile\<close> runs
  nothing. The statement is made for a goal name (a word of letters, digits, \<open>_\<close>,
  \<open>-\<close> and \<open>.\<close> that begins with neither \<open>-\<close> nor \<open>.\<close>, which leaves out
  make's special targets, options, variable assignments and every name the shell would
  split or interpret) that make's built-in rules do not claim (neither the rule database
  given as a parameter nor make's default suffix list), and for source and build
  directories with plain names (letters, digits, \<open>_\<close>, \<open>-\<close>, \<open>.\<close> and
  \<open>/\<close>). Such a goal name is one of the five above, or it is
  passed through unchanged: after the \<open>genapi\<close> recipe, make calls
  \<open>$(SPHINXBUILD) -M\<close> with the name as the builder, the source and build
  directories, and the pass-through options \<open>SPHINXOPTS\<close> and \<open>O\<close>, and nothing
  else. When every command succeeds this is the whole run; under any shell the commands
  executed are a prefix of it. No target takes an option of its own: whatever the shell,
  a command executed for the goal is one of the six commands that the Makefile writes
  without an option variable (the three of \<open>genapi\<close> and the three \<open>rm -rf\<close> of
  \<open>clean\<close>), or a call of \<open>$(SPHINXBUILD) -M\<close> whose words after the directories
  are \<open>SPHINXOPTS\<close> and \<open>O\<close>, followed for \<open>htmlfast\<close> by
  \<open>-D nbsphinx_execute=never\<close>.
\<close>

theorem make_targets:
  assumes "goal_name t" and "\<not> builtin t" and "\<not> known_suffix t"
    and "plain (SOURCEDIR v)" and "plain (BUILDDIR v)"
  shows "executed (run_make all_succeed builtin v [''help'']) =
       [(''help'', SPHINXBUILD v @ [''-M'', ''help'', SOURCEDIR v, BUILDDIR v]
                   @ SPHINXOPTS v @ O_opts v)]
     \<and> executed (run_make all_succeed builtin v [''clean'']) =
       [(''clean'', [''rm'', ''-rf'', BUILDDIR v @ ''/*'']),
        (''clean'', [''rm'', ''-rf'', ''_auto'']),
        (''clean'', [''rm'', ''-rf'', ''api/generated'']),
        (''clean'', SPHINXBUILD v @ [''-M'', ''clean'', SOURCEDIR v, BUILDDIR v]
                    @ SPHINXOPTS v @ O_opts v)]
     \<and> executed (run_make all_succeed builtin v [''genapi'']) = genapi_run
     \<and> executed (run_make all_succeed builtin v [''htmlfast'']) =
       genapi_run @ [(''htmlfast'', SPHINXBUILD v @ [''-M'', ''html'', SOURCEDIR v, BUILDDIR v]
                                    @ SPHINXOPTS v @ O_opts v
                                    @ [''-D'', ''nbsphinx_execute=never''])]
     \<and> executed (run_make all_succeed builtin v [''Makefile'']) = []
     \<and> (t \<in> set [''help'', ''clean'', ''genapi'', ''htmlfast'', ''Makefile'']
        \<or> (executed (run_make all_succeed builtin v [t]) =
              genapi_run @ [(t, SPHINXBUILD v @ [''-M'', t, SOURCEDIR v, BUILDDIR v]
                                @ SPHINXOPTS v @ O_opts v)]
            \<and> failed (run_make all_succeed builtin v [t]) = None
            \<and> prefix (executed (run_make sh builtin v [t]))
                (genapi_run @ [(t, SPHINXBUILD v @ [''-M'', t, SOURCEDIR v, BUILDDIR v]
                                   @ SPHINXOPTS v @ O_opts v)])))
     \<and> (\<forall>e\<in>set (executed (run_make sh builtin v [t])).
          snd e \<in> snd ` set genapi_run
          \<or> snd e \<in> set [[''rm'', ''-rf'', BUILDDIR v @ ''/*''], [''rm'', ''-rf'', ''_auto''],
                          [''rm'', ''-rf'', ''api/generated'']]
          \<or> (\<exists>b. snd e = SPHINXBUILD v @ [''-M'', b, SOURCEDIR v, BUILDDIR v]
                            @ SPHINXOPTS v @ O_opts v)
          \<or> snd e = SPHINXBUILD v @ [''-M'', ''html'', SOURCEDIR v, BUILDDIR v]
                     @ SPHINXOPTS v @ O_opts v @ [''-D'', ''nbsphinx_execute=never''])"
proof -
  from assms(5) have rm: "unquoted (BUILDDIR v @ ''/*'') = [BUILDDIR v @ ''/*'']"
    by (rule unquoted_plain)
  have named_runs:
    "executed (run_make all_succeed builtin v [''help'']) =
       [(''help'', SPHINXBUILD v @ [''-M'', ''help'', SOURCEDIR v, BUILDDIR v]
                   @ SPHINXOPTS v @ O_opts v)]"
    "executed (run_make all_succeed builtin v [''clean'']) =
       [(''clean'', [''rm'', ''-rf'', BUILDDIR v @ ''/*'']),
        (''clean'', [''rm'', ''-rf'', ''_auto'']),
        (''clean'', [''rm'', ''-rf'', ''api/generated'']),
        (''clean'', SPHINXBUILD v @ [''-M'', ''clean'', SOURCEDIR v, BUILDDIR v]
                    @ SPHINXOPTS v @ O_opts v)]"
    "executed (run_make all_succeed builtin v [''genapi'']) = genapi_run"
    "executed (run_make all_succeed builtin v [''htmlfast'']) =
       genapi_run @ [(''htmlfast'', SPHINXBUILD v @ [''-M'', ''html'', SOURCEDIR v, BUILDDIR v]
                                    @ SPHINXOPTS v @ O_opts v
                                    @ [''-D'', ''nbsphinx_execute=never''])]"
    "executed (run_make all_succeed builtin v [''Makefile'']) = []"
    by (simp_all add: ok_help ok_clean ok_genapi ok_htmlfast ok_Makefile clean_run_def sphinx_M_def rm)
  have other: "t \<in> set [''help'', ''clean'', ''genapi'', ''htmlfast'', ''Makefile'']
        \<or> (executed (run_make all_succeed builtin v [t]) =
              genapi_run @ [(t, SPHINXBUILD v @ [''-M'', t, SOURCEDIR v, BUILDDIR v]
                                @ SPHINXOPTS v @ O_opts v)]
            \<and> failed (run_make all_succeed builtin v [t]) = None
            \<and> prefix (executed (run_make sh builtin v [t]))
                (genapi_run @ [(t, SPHINXBUILD v @ [''-M'', t, SOURCEDIR v, BUILDDIR v]
                                   @ SPHINXOPTS v @ O_opts v)]))"
  proof (cases "t \<in> set named")
    case True
    then show ?thesis
      by (auto simp: named_def)
  next
    case False
    from False assms(1,2) have ok: "run_make all_succeed builtin v [t] =
       \<lparr>updated = [''Makefile'', ''genapi'', t],
        executed = genapi_run @ [(t, sphinx_M v t)], failed = None\<rparr>"
      by (rule ok_other)
    have "prefix (executed (run_make sh builtin v [t]))
            (executed (run_make all_succeed builtin v [t]))"
      by (rule make_prefix)
    with ok show ?thesis
      by (simp add: sphinx_M_def)
  qed
  have options: "\<forall>e\<in>set (executed (run_make sh builtin v [t])).
          snd e \<in> snd ` set genapi_run
          \<or> snd e \<in> set [[''rm'', ''-rf'', BUILDDIR v @ ''/*''], [''rm'', ''-rf'', ''_auto''],
                          [''rm'', ''-rf'', ''api/generated'']]
          \<or> (\<exists>b. snd e = SPHINXBUILD v @ [''-M'', b, SOURCEDIR v, BUILDDIR v]
                            @ SPHINXOPTS v @ O_opts v)
          \<or> snd e = SPHINXBUILD v @ [''-M'', ''html'', SOURCEDIR v, BUILDDIR v]
                     @ SPHINXOPTS v @ O_opts v @ [''-D'', ''nbsphinx_execute=never'']"
  proof
    fix e
    assume "e \<in> set (executed (run_make sh builtin v [t]))"
    then have "snd e \<in> snd ` set genapi_run
          \<or> snd e \<in> set [[''rm'', ''-rf''] @ unquoted (BUILDDIR v @ ''/*''),
                          [''rm'', ''-rf'', ''_auto''], [''rm'', ''-rf'', ''api/generated'']]
          \<or> (\<exists>b. snd e = sphinx_M v b)
          \<or> snd e = sphinx_M v ''html'' @ [''-D'', ''nbsphinx_execute=never'']"
      by (rule recipe_words)
    then show "snd e \<in> snd ` set genapi_run
          \<or> snd e \<in> set [[''rm'', ''-rf'', BUILDDIR v @ ''/*''], [''rm'', ''-rf'', ''_auto''],
                          [''rm'', ''-rf'', ''api/generated'']]
          \<or> (\<exists>b. snd e = SPHINXBUILD v @ [''-M'', b, SOURCEDIR v, BUILDDIR v]
                            @ SPHINXOPTS v @ O_opts v)
          \<or> snd e = SPHINXBUILD v @ [''-M'', ''html'', SOURCEDIR v, BUILDDIR v]
                     @ SPHINXOPTS v @ O_opts v @ [''-D'', ''nbsphinx_execute=never'']"
      by (simp add: rm sphinx_M_def)
  qed
  from named_runs other options show ?thesis
    by (intro conjI)
qed

text \<open>
  The amended claim C1 at the target \<open>html\<close> with the default variables.
\<close>

theorem make_targets_witness:
  "goal_name ''html''
   \<and> \<not> known_suffix ''html''
   \<and> plain (SOURCEDIR defaults) \<and> plain (BUILDDIR defaults)
   \<and> ''html'' \<notin> set [''help'', ''clean'', ''genapi'', ''htmlfast'', ''Makefile'']
   \<and> executed (run_make all_succeed known_suffix defaults [''html'']) =
       genapi_run @ [(''html'', [''sphinx-build'', ''-M'', ''html'', ''.'', ''_build''])]
   \<and> failed (run_make all_succeed known_suffix defaults [''html'']) = None
   \<and> executed (run_make all_succeed known_suffix defaults [''clean'']) =
       [(''clean'', [''rm'', ''-rf'', ''_build/*'']),
        (''clean'', [''rm'', ''-rf'', ''_auto'']),
        (''clean'', [''rm'', ''-rf'', ''api/generated'']),
        (''clean'', [''sphinx-build'', ''-M'', ''clean'', ''.'', ''_build''])]"
  using make_targets [of "''html''" known_suffix defaults all_succeed,
      OF goal_name_html not_known_suffix_html not_known_suffix_html plain_defaults]
    goal_name_html not_known_suffix_html plain_defaults
  by (simp add: defaults_def)

text \<open>
  Claim C2 as it is stated. It says that no target performs work outside API
  documentation extraction and the Sphinx build. The recipe of \<open>clean\<close> removes
  \<open>_auto\<close> with \<open>rm -rf\<close>, which is neither a command of the \<open>genapi\<close> recipe nor a
  call of sphinx-build.
\<close>

theorem clean_removes_directories:
  "(''clean'', [''rm'', ''-rf'', ''_auto''])
     \<in> set (executed (run_make all_succeed known_suffix defaults [''clean'']))
   \<and> \<not> api_extraction [''rm'', ''-rf'', ''_auto'']
   \<and> \<not> sphinx_build defaults [''rm'', ''-rf'', ''_auto'']"
  by (simp add: ok_clean clean_run_def api_extraction_def genapi_run_def sphinx_build_def defaults_def)

text \<open>
  Claim C2, amended. The target \<open>genapi\<close> runs sphinx-apidoc with maximal depth 10 on
  the package, excluding \<open>drivers/Spectrum/pyspcm.py\<close>, into \<open>_auto\<close>, creates
  \<open>api/generated/\<close> and copies the generated \<open>qcodes_contrib_drivers.drivers.*\<close> files
  there. The target \<open>clean\<close> removes the contents of the build directory, \<open>_auto\<close> and
  \<open>api/generated\<close> and then calls sphinx-build in make mode with \<open>clean\<close>. For a
  goal name (a word of letters, digits, \<open>_\<close>, \<open>-\<close> and \<open>.\<close> that begins with
  neither \<open>-\<close> nor \<open>.\<close>) that make's built-in rules do not claim (neither the
  rule database given as a parameter nor make's default suffix list), and for source and
  build directories with plain names: a target other than \<open>clean\<close>, \<open>help\<close>, \<open>genapi\<close> and
  \<open>Makefile\<close> runs the \<open>genapi\<close> recipe and then one call of sphinx-build in make
  mode; and under any shell, every command executed for a target other than \<open>clean\<close>
  is a command of the \<open>genapi\<close> recipe or a call of sphinx-build in make mode.
\<close>

theorem documentation_targets:
  assumes "goal_name t" and "\<not> builtin t" and "\<not> known_suffix t"
    and "plain (SOURCEDIR v)" and "plain (BUILDDIR v)"
  shows "executed (run_make all_succeed builtin v [''genapi'']) =
     [(''genapi'', [''sphinx-apidoc'', ''-o'', ''_auto'', ''-d'', ''10'',
                    ''../src/qcodes_contrib_drivers'',
                    ''../src/qcodes_contrib_drivers/drivers/Spectrum/pyspcm.py'']),
      (''genapi'', [''mkdir'', ''-p'', ''api/generated/'']),
      (''genapi'', [''cp'', ''_auto/qcodes_contrib_drivers.drivers.*'', ''api/generated/''])]
   \<and> executed (run_make all_succeed builtin v [''clean'']) =
     [(''clean'', [''rm'', ''-rf'', BUILDDIR v @ ''/*'']),
      (''clean'', [''rm'', ''-rf'', ''_auto'']),
      (''clean'', [''rm'', ''-rf'', ''api/generated'']),
      (''clean'', SPHINXBUILD v @ [''-M'', ''clean'', SOURCEDIR v, BUILDDIR v]
                  @ SPHINXOPTS v @ O_opts v)]
   \<and> (t \<notin> set [''clean'', ''help'', ''genapi'', ''Makefile''] \<longrightarrow>
        (\<exists>c. executed (run_make all_succeed builtin v [t]) = genapi_run @ [(t, c)]
              \<and> sphinx_build v c))
   \<and> (t \<noteq> ''clean'' \<longrightarrow>
        (\<forall>e\<in>set (executed (run_make sh builtin v [t])).
           api_extraction (snd e) \<or> sphinx_build v (snd e)))"
proof (intro conjI impI ballI)
  show "executed (run_make all_succeed builtin v [''genapi'']) =
     [(''genapi'', [''sphinx-apidoc'', ''-o'', ''_auto'', ''-d'', ''10'',
                    ''../src/qcodes_contrib_drivers'',
                    ''../src/qcodes_contrib_drivers/drivers/Spectrum/pyspcm.py'']),
      (''genapi'', [''mkdir'', ''-p'', ''api/generated/'']),
      (''genapi'', [''cp'', ''_auto/qcodes_contrib_drivers.drivers.*'', ''api/generated/''])]"
    by (simp add: ok_genapi genapi_run_def)
next
  from assms(5) have rm: "unquoted (BUILDDIR v @ ''/*'') = [BUILDDIR v @ ''/*'']"
    by (rule unquoted_plain)
  show "executed (run_make all_succeed builtin v [''clean'']) =
     [(''clean'', [''rm'', ''-rf'', BUILDDIR v @ ''/*'']),
      (''clean'', [''rm'', ''-rf'', ''_auto'']),
      (''clean'', [''rm'', ''-rf'', ''api/generated'']),
      (''clean'', SPHINXBUILD v @ [''-M'', ''clean'', SOURCEDIR v, BUILDDIR v]
                  @ SPHINXOPTS v @ O_opts v)]"
    by (simp add: ok_clean clean_run_def sphinx_M_def rm)
next
  assume a: "t \<notin> set [''clean'', ''help'', ''genapi'', ''Makefile'']"
  show "\<exists>c. executed (run_make all_succeed builtin v [t]) = genapi_run @ [(t, c)] \<and> sphinx_build v c"
  proof (cases "t = ''htmlfast''")
    case True
    then show ?thesis
      by (simp add: ok_htmlfast sphinx_build_M)
  next
    case False
    with a have "t \<notin> set named"
      by (simp add: named_def)
    with assms(1,2) show ?thesis
      by (simp add: ok_other sphinx_build_M0)
  qed
next
  fix e
  assume "t \<noteq> ''clean''"
    and "e \<in> set (executed (run_make sh builtin v [t]))"
  then show "api_extraction (snd e) \<or> sphinx_build v (snd e)"
    by (rule doc_work_only)
qed

text \<open>
  The amended claim C2 at the target \<open>htmlfast\<close> with the default variables.
\<close>

theorem documentation_targets_witness:
  "goal_name ''htmlfast''
   \<and> \<not> known_suffix ''htmlfast''
   \<and> plain (SOURCEDIR defaults) \<and> plain (BUILDDIR defaults)
   \<and> ''htmlfast'' \<notin> set [''clean'', ''help'', ''genapi'', ''Makefile'']
   \<and> ''htmlfast'' \<noteq> ''clean''
   \<and> (\<exists>c. executed (run_make all_succeed known_suffix defaults [''htmlfast''])
            = genapi_run @ [(''htmlfast'', c)]
          \<and> sphinx_build defaults c)
   \<and> (''htmlfast'', [''sphinx-build'', ''-M'', ''html'', ''.'', ''_build'', ''-D'', ''nbsphinx_execute=never''])
       \<in> set (executed (run_make all_succeed known_suffix defaults [''htmlfast'']))
   \<and> (api_extraction [''sphinx-build'', ''-M'', ''html'', ''.'', ''_build'', ''-D'', ''nbsphinx_execute=never'']
       \<or> sphinx_build defaults [''sphinx-build'', ''-M'', ''html'', ''.'', ''_build'', ''-D'', ''nbsphinx_execute=never''])"
proof -
  have m: "(''htmlfast'', [''sphinx-build'', ''-M'', ''html'', ''.'', ''_build'', ''-D'', ''nbsphinx_execute=never''])
       \<in> set (executed (run_make all_succeed known_suffix defaults [''htmlfast'']))"
    by (simp add: ok_htmlfast sphinx_M_def defaults_def)
  have n: "''htmlfast'' \<notin> set [''clean'', ''help'', ''genapi'', ''Makefile'']"
    by simp
  note d = documentation_targets [of "''htmlfast''" known_suffix defaults all_succeed,
      OF goal_name_htmlfast not_known_suffix_htmlfast not_known_suffix_htmlfast plain_defaults]
  from d n have x: "\<exists>c. executed (run_make all_succeed known_suffix defaults [''htmlfast''])
            = genapi_run @ [(''htmlfast'', c)]
          \<and> sphinx_build defaults c"
    by blast
  from d have "\<forall>e\<in>set (executed (run_make all_succeed known_suffix defaults [''htmlfast''])).
           api_extraction (snd e) \<or> sphinx_build defaults (snd e)"
    by simp
  from this m have "api_extraction (snd (''htmlfast'', [''sphinx-build'', ''-M'', ''html'', ''.'', ''_build'', ''-D'', ''nbsphinx_execute=never'']))
       \<or> sphinx_build defaults (snd (''htmlfast'', [''sphinx-build'', ''-M'', ''html'', ''.'', ''_build'', ''-D'', ''nbsphinx_execute=never'']))"
    by (rule bspec)
  with m x goal_name_htmlfast not_known_suffix_htmlfast plain_defaults show ?thesis
    by simp
qed

text \<open>
  Claim C3 as it is stated. It says that every \<open>position\<close> parameter is a float and
  that \<open>position.get()\<close> returns a float-valued angle. The MFF10x notebook records the
  result of \<open>thorlabs_mff10x.position.get()\<close> as \<open>0\<close>, the \<open>repr\<close> of an int.
\<close>

theorem mff10x_position_reads_an_int:
  "(''thorlabs_mff10x'', ''position'', ''0'') \<in> set (readings mff10x_notebook)
   \<and> repr_type ''0'' = Some TInt
   \<and> repr_type ''0'' \<noteq> Some TFloat"
  by (simp add: readings_def mff10x_notebook_def repr_type_def digits_def unsigned_def)

text \<open>
  Claim C3, amended at the one place the counterexample touches: the position of the
  MFF10x flipper is an int, the flip state, and the example shows no unit for it. The
  driver classes are not among the sources. What a parameter is declared to be is taken
  from the specification; that a parameter of the examples has a type is then read as:
  every value the examples pass to its \<open>set\<close> and every result they record for its
  \<open>get\<close> has the declared type.

  Every instrument parameter exposed in the examples (the \<open>position\<close> of the MFF10x,
  the \<open>position\<close> of the PRM1Z8, \<open>output_enabled\<close> and \<open>power\<close> of the KLS1550)
  is a named, typed, unit-bearing property with a get/set accessor and a unit/label
  string: each is declared, and each is read with \<open>get\<close> and written with \<open>set\<close>.
  Every \<open>position\<close> parameter is a float in degrees, except that of the MFF10x, which
  is written as the int 1 and read as the ints 0 and 1; every \<open>power\<close> parameter is a
  float in Watts, the unit that the text of the notebook gives for \<open>set\<close> and
  \<open>get\<close>; every \<open>output_enabled\<close> parameter is a bool. In particular every
  recorded result of \<open>position.get()\<close> on the PRM1Z8 is a float-valued angle in
  degrees: the notebook prints it between the label string \<open>position\<close> and the unit
  string, the degree sign. These are the only label and unit strings the examples print.
\<close>

theorem example_parameters:
  "parameters mff10x_notebook = [(''thorlabs_mff10x'', ''position'')]
   \<and> parameters prm1z8_notebook = [(''thorlabs_prm1z8'', ''position'')]
   \<and> parameters kls1550_notebook = [(''laser'', ''output_enabled''), (''laser'', ''power'')]
   \<and> (\<forall>nb\<in>set examples.
        set (reads nb) = set (parameters nb)
        \<and> (\<lambda>w. (fst w, fst (snd w))) ` set (writes nb) = set (parameters nb))
   \<and> (\<forall>nb\<in>set examples. \<forall>xp\<in>set (parameters nb).
        (\<exists>d. declared (snd xp) = Some d \<and> pname d = snd xp)
        \<and> (xp \<noteq> (''thorlabs_mff10x'', ''position'') \<longrightarrow> conforms nb xp))
   \<and> map_option ptype (declared ''position'') = Some TFloat
   \<and> map_option punit (declared ''position'') = Some ''degrees''
   \<and> map_option ptype (declared ''power'') = Some TFloat
   \<and> map_option punit (declared ''power'') = Some ''Watts''
   \<and> map_option ptype (declared ''output_enabled'') = Some TBool
   \<and> value_types prm1z8_notebook (''thorlabs_prm1z8'', ''position'') = [Some TFloat]
   \<and> value_types kls1550_notebook (''laser'', ''power'') = [Some TFloat]
   \<and> value_types kls1550_notebook (''laser'', ''output_enabled'') = [Some TBool]
   \<and> value_types mff10x_notebook (''thorlabs_mff10x'', ''position'') = [Some TInt]
   \<and> writes mff10x_notebook = [(''thorlabs_mff10x'', ''position'', PyInt 1)]
   \<and> readings mff10x_notebook =
       [(''thorlabs_mff10x'', ''position'', ''0''), (''thorlabs_mff10x'', ''position'', ''1'')]
   \<and> shown_attributes mff10x_notebook = []
   \<and> writes prm1z8_notebook = [(''thorlabs_prm1z8'', ''position'', PyFloat ''200.0'')]
   \<and> readings prm1z8_notebook =
       [(''thorlabs_prm1z8'', ''position'', ''90.00012969970703''),
        (''thorlabs_prm1z8'', ''position'', ''200.00189208984375'')]
   \<and> shown_attributes prm1z8_notebook =
       [(''position'', ''label'', ''position''), (''position'', ''unit'', degree_sign),
        (''position'', ''label'', ''position''), (''position'', ''unit'', degree_sign)]
   \<and> writes kls1550_notebook =
       [(''laser'', ''output_enabled'', PyBool True), (''laser'', ''output_enabled'', PyBool False),
        (''laser'', ''power'', PyFloat ''1e-3'')]
   \<and> readings kls1550_notebook = []
   \<and> shown_attributes kls1550_notebook = []
   \<and> cells kls1550_notebook ! 11 =
       Markdown [''## Setting the laser output power'',
                 ''Set the laser output power in Watts and get the current power value from the device (also in Watts)'']
   \<and> mentions ''Watts'' (cells kls1550_notebook ! 11)
   \<and> cells kls1550_notebook ! 12 = Code (Some 5) [Expr (Param_set ''laser'' ''power'' (PyFloat ''1e-3''))] []
   \<and> cells kls1550_notebook ! 13 = Code None [Expr (Param_get ''laser'' ''power'')] []"
proof -
  note defs = reads_def writes_def readings_def shown_attributes_def program_def
  have mff: "reads mff10x_notebook = [(''thorlabs_mff10x'', ''position''), (''thorlabs_mff10x'', ''position'')]"
    "writes mff10x_notebook = [(''thorlabs_mff10x'', ''position'', PyInt 1)]"
    "readings mff10x_notebook =
       [(''thorlabs_mff10x'', ''position'', ''0''), (''thorlabs_mff10x'', ''position'', ''1'')]"
    "shown_attributes mff10x_notebook = []"
    by (simp_all add: defs mff10x_notebook_def)
  have prm: "reads prm1z8_notebook = [(''thorlabs_prm1z8'', ''position''), (''thorlabs_prm1z8'', ''position'')]"
    "writes prm1z8_notebook = [(''thorlabs_prm1z8'', ''position'', PyFloat ''200.0'')]"
    "readings prm1z8_notebook =
       [(''thorlabs_prm1z8'', ''position'', ''90.00012969970703''),
        (''thorlabs_prm1z8'', ''position'', ''200.00189208984375'')]"
    "shown_attributes prm1z8_notebook =
       [(''position'', ''label'', ''position''), (''position'', ''unit'', degree_sign),
        (''position'', ''label'', ''position''), (''position'', ''unit'', degree_sign)]"
    by (simp_all add: defs prm1z8_notebook_def words_def degree_sign_def newline_def)
  have kls: "reads kls1550_notebook = [(''laser'', ''output_enabled''), (''laser'', ''power'')]"
    "writes kls1550_notebook =
       [(''laser'', ''output_enabled'', PyBool True), (''laser'', ''output_enabled'', PyBool False),
        (''laser'', ''power'', PyFloat ''1e-3'')]"
    "readings kls1550_notebook = []"
    "shown_attributes kls1550_notebook = []"
    by (simp_all add: defs kls1550_notebook_def)
  have md: "cells kls1550_notebook ! 11 =
       Markdown [''## Setting the laser output power'',
                 ''Set the laser output power in Watts and get the current power value from the device (also in Watts)'']"
    "cells kls1550_notebook ! 12 = Code (Some 5) [Expr (Param_set ''laser'' ''power'' (PyFloat ''1e-3''))] []"
    "cells kls1550_notebook ! 13 = Code None [Expr (Param_get ''laser'' ''power'')] []"
    by (simp_all add: kls1550_notebook_def)
  have watts: "mentions ''Watts'' (cells kls1550_notebook ! 11)"
    unfolding md by (simp add: mentions_def words_def)
  have par: "parameters mff10x_notebook = [(''thorlabs_mff10x'', ''position'')]"
    "parameters prm1z8_notebook = [(''thorlabs_prm1z8'', ''position'')]"
    "parameters kls1550_notebook = [(''laser'', ''output_enabled''), (''laser'', ''power'')]"
    by (simp_all add: parameters_def mff prm kls)
  have ty: "value_types prm1z8_notebook (''thorlabs_prm1z8'', ''position'') = [Some TFloat]"
    "value_types kls1550_notebook (''laser'', ''power'') = [Some TFloat]"
    "value_types kls1550_notebook (''laser'', ''output_enabled'') = [Some TBool]"
    "value_types mff10x_notebook (''thorlabs_mff10x'', ''position'') = [Some TInt]"
    by (simp_all add: value_types_def mff prm kls repr_type_def digits_def unsigned_def
          float_repr_def decimal_def text_before_def text_after_def)
  have dec: "declared ''position'' = Some \<lparr>pname = ''position'', ptype = TFloat, punit = ''degrees''\<rparr>"
    "declared ''power'' = Some \<lparr>pname = ''power'', ptype = TFloat, punit = ''Watts''\<rparr>"
    "declared ''output_enabled'' = Some \<lparr>pname = ''output_enabled'', ptype = TBool, punit = []\<rparr>"
    by (simp_all add: declared_def declarations_def)
  have acc: "\<forall>nb\<in>set examples.
        set (reads nb) = set (parameters nb)
        \<and> (\<lambda>w. (fst w, fst (snd w))) ` set (writes nb) = set (parameters nb)"
    by (simp add: examples_def par mff prm kls)
  have typed: "\<forall>nb\<in>set examples. \<forall>xp\<in>set (parameters nb).
        (\<exists>d. declared (snd xp) = Some d \<and> pname d = snd xp)
        \<and> (xp \<noteq> (''thorlabs_mff10x'', ''position'') \<longrightarrow> conforms nb xp)"
    by (simp add: examples_def par conforms_def dec ty)
  have decs: "map_option ptype (declared ''position'') = Some TFloat"
    "map_option punit (declared ''position'') = Some ''degrees''"
    "map_option ptype (declared ''power'') = Some TFloat"
    "map_option punit (declared ''power'') = Some ''Watts''"
    "map_option ptype (declared ''output_enabled'') = Some TBool"
    by (simp_all add: dec)
  from par acc typed decs ty mff(2,3,4) prm(2,3,4) kls(2,3,4) md watts show ?thesis
    by (intro conjI)
qed

text \<open>
  The amended claim C3 at the \<open>power\<close> parameter of the KLS1550 notebook and at the
  \<open>position\<close> parameter of the PRM1Z8 notebook, which conform to their declarations;
  the \<open>position\<close> parameter of the MFF10x notebook does not.
\<close>

theorem example_parameters_witness:
  "kls1550_notebook \<in> set examples
   \<and> (''laser'', ''power'') \<in> set (parameters kls1550_notebook)
   \<and> (''laser'', ''power'') \<noteq> (''thorlabs_mff10x'', ''position'')
   \<and> conforms kls1550_notebook (''laser'', ''power'')
   \<and> prm1z8_notebook \<in> set examples
   \<and> (''thorlabs_prm1z8'', ''position'') \<in> set (parameters prm1z8_notebook)
   \<and> (''thorlabs_prm1z8'', ''position'') \<noteq> (''thorlabs_mff10x'', ''position'')
   \<and> conforms prm1z8_notebook (''thorlabs_prm1z8'', ''position'')
   \<and> \<not> conforms mff10x_notebook (''thorlabs_mff10x'', ''position'')"
proof -
  note r1 = example_parameters [THEN conjunct2]
  note r2 = r1 [THEN conjunct2]
  note r4 = r2 [THEN conjunct2, THEN conjunct2]
  note r5 = r4 [THEN conjunct2]
  note r9 = r5 [THEN conjunct2, THEN conjunct2, THEN conjunct2, THEN conjunct2]
  note r13 = r9 [THEN conjunct2, THEN conjunct2, THEN conjunct2, THEN conjunct2]
  note par = r1 [THEN conjunct1] r2 [THEN conjunct1]
  note typed = r4 [THEN conjunct1]
  note dec = r5 [THEN conjunct1]
  note flip = r13 [THEN conjunct1]
  have m: "kls1550_notebook \<in> set examples" "prm1z8_notebook \<in> set examples"
    by (simp_all add: examples_def)
  have p: "(''laser'', ''power'') \<in> set (parameters kls1550_notebook)"
    "(''thorlabs_prm1z8'', ''position'') \<in> set (parameters prm1z8_notebook)"
    by (simp_all add: par)
  have ne: "(''laser'', ''power'') \<noteq> (''thorlabs_mff10x'', ''position'')"
    "(''thorlabs_prm1z8'', ''position'') \<noteq> (''thorlabs_mff10x'', ''position'')"
    by simp_all
  from typed m(1) have k: "\<forall>xp\<in>set (parameters kls1550_notebook).
        (\<exists>d. declared (snd xp) = Some d \<and> pname d = snd xp)
        \<and> (xp \<noteq> (''thorlabs_mff10x'', ''position'') \<longrightarrow> conforms kls1550_notebook xp)"
    by (rule bspec)
  from k p(1) have "(\<exists>d. declared (snd (''laser'', ''power'')) = Some d \<and> pname d = snd (''laser'', ''power''))
        \<and> ((''laser'', ''power'') \<noteq> (''thorlabs_mff10x'', ''position'')
             \<longrightarrow> conforms kls1550_notebook (''laser'', ''power''))"
    by (rule bspec)
  then have a: "conforms kls1550_notebook (''laser'', ''power'')"
    by simp
  from typed m(2) have q: "\<forall>xp\<in>set (parameters prm1z8_notebook).
        (\<exists>d. declared (snd xp) = Some d \<and> pname d = snd xp)
        \<and> (xp \<noteq> (''thorlabs_mff10x'', ''position'') \<longrightarrow> conforms prm1z8_notebook xp)"
    by (rule bspec)
  from q p(2) have "(\<exists>d. declared (snd (''thorlabs_prm1z8'', ''position'')) = Some d
                         \<and> pname d = snd (''thorlabs_prm1z8'', ''position''))
        \<and> ((''thorlabs_prm1z8'', ''position'') \<noteq> (''thorlabs_mff10x'', ''position'')
             \<longrightarrow> conforms prm1z8_notebook (''thorlabs_prm1z8'', ''position''))"
    by (rule bspec)
  then have b: "conforms prm1z8_notebook (''thorlabs_prm1z8'', ''position'')"
    by simp
  from dec obtain d where d: "declared ''position'' = Some d" "ptype d = TFloat"
    by (cases "declared ''position''") simp_all
  from flip d have c: "\<not> conforms mff10x_notebook (''thorlabs_mff10x'', ''position'')"
    by (simp add: conforms_def)
  from m p ne a b c show ?thesis
    by (intro conjI)
qed



text \<open>
  Claim C5, against the accessors modelled from the specification. On an open driver,
  a \<open>set\<close> of a parameter succeeds, and the \<open>get\<close> that follows returns what the
  vendor library reads from the hardware state the write produced: the value the
  hardware holds, not the value that was passed to \<open>set\<close>.
\<close>

theorem set_then_get:
  assumes "handle d = Some h"
  shows "\<exists>d'. param_set dll p x d = Inr d'
           \<and> param_get dll p d' = Inr (dll_read dll p (dll_write dll p x h))"
  using assms by (simp add: param_set_def param_get_def)

text \<open>
  Claim C5 at the values of the PRM1Z8 notebook: the position is set to \<open>200.0\<close> and
  read back as \<open>200.00189208984375\<close>.
\<close>

theorem set_then_get_witness:
  "handle (driver_open (PyFloat ''90.00012969970703'')) = Some (PyFloat ''90.00012969970703'')
   \<and> (\<exists>d'. param_set recorded_stage ''position'' (PyFloat ''200.0'')
              (driver_open (PyFloat ''90.00012969970703'')) = Inr d'
           \<and> param_get recorded_stage ''position'' d' = Inr (PyFloat ''200.00189208984375''))"
proof -
  have h: "handle (driver_open (PyFloat ''90.00012969970703'')) = Some (PyFloat ''90.00012969970703'')"
    by (simp add: driver_open_def)
  from set_then_get [OF h, of recorded_stage "''position''" "PyFloat ''200.0''"]
  have "\<exists>d'. param_set recorded_stage ''position'' (PyFloat ''200.0'')
              (driver_open (PyFloat ''90.00012969970703'')) = Inr d'
           \<and> param_get recorded_stage ''position'' d' = Inr (PyFloat ''200.00189208984375'')"
    by (simp add: recorded_stage_def)
  with h show ?thesis
    by blast
qed



text \<open>
  Claim C8. The rule for \<open>help\<close> is the first rule of the Makefile and is the default
  goal, so make without a goal does what \<open>make help\<close> does: it runs the one command
  \<open>$(SPHINXBUILD) -M help\<close> and nothing else.
\<close>

theorem default_goal_is_help:
  "target (hd makefile) = ''help''
   \<and> default_goal makefile = Some ''help''
   \<and> run_make sh builtin v [] = run_make sh builtin v [''help'']
   \<and> executed (run_make sh builtin v []) =
       [(''help'', SPHINXBUILD v @ [''-M'', ''help'', SOURCEDIR v, BUILDDIR v]
                   @ SPHINXOPTS v @ O_opts v)]"
proof -
  have a: "target (hd makefile) = ''help''"
    by (simp add: makefile_def help_rule_def)
  have b: "run_make sh builtin v [] = run_make sh builtin v [''help'']"
    by (simp add: run_make_def goals_of_def default_goal_help)
  have c: "executed (run_make sh builtin v [''help'']) =
       [(''help'', SPHINXBUILD v @ [''-M'', ''help'', SOURCEDIR v, BUILDDIR v]
                   @ SPHINXOPTS v @ O_opts v)]"
    by (simp add: help_any_shell sphinx_M_def)
  from a b c default_goal_help show ?thesis
    by simp
qed

text \<open>
  Claim C9. In every run of make, whatever the goals and whichever command fails, a call
  of sphinx-build that belongs to the recipe of a target other than \<open>help\<close> and
  \<open>clean\<close> comes after the commands of the \<open>genapi\<close> recipe; \<open>genapi\<close> is a
  prerequisite of \<open>htmlfast\<close> and of the catch-all rule; and \<open>make clean\<close> and
  \<open>make help\<close> run no command of the \<open>genapi\<close> recipe.
\<close>

theorem genapi_before_sphinx_build:
  "(\<forall>i u c. i < length (executed (run_make sh builtin v goals))
        \<and> executed (run_make sh builtin v goals) ! i = (u, c)
        \<and> u \<noteq> ''help'' \<and> u \<noteq> ''clean'' \<and> sphinx_build v c
      \<longrightarrow> sublist genapi_run (take i (executed (run_make sh builtin v goals))))
   \<and> ''genapi'' \<in> set (prereqs htmlfast_rule)
   \<and> ''genapi'' \<in> set (prereqs catch_all)
   \<and> ''genapi'' \<notin> fst ` set (executed (run_make sh builtin v [''clean'']))
   \<and> ''genapi'' \<notin> fst ` set (executed (run_make sh builtin v [''help'']))"
proof -
  have a: "\<forall>i u c. i < length (executed (run_make sh builtin v goals))
        \<and> executed (run_make sh builtin v goals) ! i = (u, c)
        \<and> u \<noteq> ''help'' \<and> u \<noteq> ''clean'' \<and> sphinx_build v c
      \<longrightarrow> sublist genapi_run (take i (executed (run_make sh builtin v goals)))"
    by (intro allI impI, elim conjE) (rule run_make_ordered; assumption)
  have b: "''genapi'' \<in> set (prereqs htmlfast_rule)" "''genapi'' \<in> set (prereqs catch_all)"
    by (simp_all add: htmlfast_rule_def catch_all_def)
  have c: "''genapi'' \<notin> fst ` set (executed (run_make sh builtin v [''clean'']))"
    by (auto dest: clean_any_shell_tags)
  have d: "''genapi'' \<notin> fst ` set (executed (run_make sh builtin v [''help'']))"
    by (simp add: help_any_shell)
  from a b c d show ?thesis
    by blast
qed

text \<open>
  Claim C9 at \<open>make html\<close>: the call of sphinx-build is the fourth command, after the
  three commands of \<open>genapi\<close>.
\<close>

theorem genapi_before_sphinx_build_witness:
  "3 < length (executed (run_make all_succeed known_suffix defaults [''html'']))
   \<and> executed (run_make all_succeed known_suffix defaults [''html'']) ! 3
       = (''html'', [''sphinx-build'', ''-M'', ''html'', ''.'', ''_build''])
   \<and> ''html'' \<noteq> ''help'' \<and> ''html'' \<noteq> ''clean''
   \<and> sphinx_build defaults [''sphinx-build'', ''-M'', ''html'', ''.'', ''_build'']
   \<and> sublist genapi_run (take 3 (executed (run_make all_succeed known_suffix defaults [''html''])))"
proof -
  have ex: "executed (run_make all_succeed known_suffix defaults [''html'']) =
      genapi_run @ [(''html'', [''sphinx-build'', ''-M'', ''html'', ''.'', ''_build''])]"
    using goal_name_html not_known_suffix_html
    by (simp add: ok_other named_def sphinx_M_def defaults_def)
  have h: "3 < length (executed (run_make all_succeed known_suffix defaults [''html'']))
     \<and> executed (run_make all_succeed known_suffix defaults [''html'']) ! 3
         = (''html'', [''sphinx-build'', ''-M'', ''html'', ''.'', ''_build''])
     \<and> ''html'' \<noteq> ''help'' \<and> ''html'' \<noteq> ''clean''
     \<and> sphinx_build defaults [''sphinx-build'', ''-M'', ''html'', ''.'', ''_build'']"
    unfolding ex by (simp add: genapi_run_def sphinx_build_def defaults_def)
  from genapi_before_sphinx_build [of all_succeed known_suffix defaults "[''html'']"]
  have "\<forall>i u c. i < length (executed (run_make all_succeed known_suffix defaults [''html'']))
        \<and> executed (run_make all_succeed known_suffix defaults [''html'']) ! i = (u, c)
        \<and> u \<noteq> ''help'' \<and> u \<noteq> ''clean'' \<and> sphinx_build defaults c
      \<longrightarrow> sublist genapi_run (take i (executed (run_make all_succeed known_suffix defaults [''html''])))"
    by (rule conjunct1)
  then have "3 < length (executed (run_make all_succeed known_suffix defaults [''html'']))
        \<and> executed (run_make all_succeed known_suffix defaults [''html'']) ! 3
            = (''html'', [''sphinx-build'', ''-M'', ''html'', ''.'', ''_build''])
        \<and> ''html'' \<noteq> ''help'' \<and> ''html'' \<noteq> ''clean''
        \<and> sphinx_build defaults [''sphinx-build'', ''-M'', ''html'', ''.'', ''_build'']
      \<longrightarrow> sublist genapi_run (take 3 (executed (run_make all_succeed known_suffix defaults [''html''])))"
    by blast
  with h show ?thesis
    by blast
qed


section \<open>A further property of the runs\<close>

text \<open>
  Whatever the goals and the exit statuses, make executes a prefix of the commands it
  executes when every command succeeds, and a run that does not fail is that run: the
  exit statuses decide where a run stops and nothing else.
\<close>

theorem runs_are_prefixes:
  "prefix (executed (run_make sh builtin v goals))
     (executed (run_make all_succeed builtin v goals))
   \<and> (failed (run_make sh builtin v goals) = None \<longrightarrow>
        run_make sh builtin v goals = run_make all_succeed builtin v goals)"
proof (intro conjI impI)
  show "prefix (executed (run_make sh builtin v goals))
     (executed (run_make all_succeed builtin v goals))"
    by (rule make_prefix)
next
  assume "failed (run_make sh builtin v goals) = None"
  then show "run_make sh builtin v goals = run_make all_succeed builtin v goals"
    by (rule make_complete)
qed

text \<open>
  The property at \<open>make clean\<close> under a shell in which only \<open>sphinx-apidoc\<close> fails:
  the run does not fail and is the run in which every command succeeds.
\<close>

theorem runs_are_prefixes_witness:
  "failed (run_make apidoc_fails known_suffix defaults [''clean'']) = None
   \<and> run_make apidoc_fails known_suffix defaults [''clean'']
       = run_make all_succeed known_suffix defaults [''clean'']"
proof -
  have h: "failed (run_make apidoc_fails known_suffix defaults [''clean'']) = None"
    by (simp add: run_make_def goals_of_def fuel start_def sels clean_rule_def apidoc_fails_def
          Let_def defaults_def)
  from runs_are_prefixes [of apidoc_fails known_suffix defaults "[''clean'']"] h
  show ?thesis
    by blast
qed

end
